theory Spec2Isabelle
  imports Main
begin

section \<open>Banking ledger: data model\<close>

text \<open>
  The ledger keeps accounts in a PostgreSQL table and transactions in a MongoDB
  collection (the journal); accepted requests travel through a RabbitMQ queue to the
  processor. The Go structs of package \<^verbatim>\<open>domain\<close> become records.

  Money is \<^verbatim>\<open>float64\<close> in the Go structs and \<^verbatim>\<open>DECIMAL(20,8)\<close> in the accounts
  table; here an amount is an exact integer number of the smallest unit, so rounding is
  outside the model. The version token is an \<^verbatim>\<open>int64\<close> that starts at 1 and grows by
  one with every update of the account; no run comes near \<open>2^63\<close> updates of one
  account, so the token is an unbounded integer here. The wall-clock fields
  (\<^verbatim>\<open>CreatedAt\<close>, \<^verbatim>\<open>UpdatedAt\<close>, \<^verbatim>\<open>ProcessedAt\<close>) are written from
  \<^verbatim>\<open>time.Now()\<close> and read by no operation below; they are left out of the records,
  as is the opaque \<^verbatim>\<open>Metadata\<close> map.
\<close>

type_synonym version = int

record Account =
  acc_ID :: string
  acc_UserID :: string
  acc_Balance :: int
  acc_Currency :: string
  acc_Status :: string
  acc_Version :: version

datatype TransactionStatus =
  TransactionStatusPending
| TransactionStatusCompleted
| TransactionStatusFailed
| TransactionStatusCancelled

text \<open>\<^verbatim>\<open>TransactionType\<close> is a Go string type: a request decoded from JSON may carry any
  string, so the type stays a string and the three constants are named.\<close>

definition TransactionTypeDeposit :: string where
  "TransactionTypeDeposit = ''deposit''"

definition TransactionTypeWithdrawal :: string where
  "TransactionTypeWithdrawal = ''withdrawal''"

definition TransactionTypeTransfer :: string where
  "TransactionTypeTransfer = ''transfer''"

record Transaction =
  tx_ID :: string
  tx_Type :: string
  tx_FromAccountID :: "string option"
  tx_ToAccountID :: "string option"
  tx_Amount :: int
  tx_Currency :: string
  tx_Status :: TransactionStatus
  tx_Description :: string
  tx_Reference :: string
  tx_ErrorMessage :: string

record TransactionRequest =
  req_ID :: string
  req_Type :: string
  req_FromAccountID :: "string option"
  req_ToAccountID :: "string option"
  req_Amount :: int
  req_Currency :: string
  req_Description :: string
  req_Reference :: string

text \<open>
  The sentinel errors of package \<^verbatim>\<open>domain\<close>. \<open>Wrapped\<close> is
  \<^verbatim>\<open>fmt.Errorf("...: %w", err)\<close>; \<open>External\<close> is an error raised by a driver (the
  broker or a database), known by its message only; \<open>NilDereference\<close> is the panic of
  dereferencing a nil account id.
\<close>

datatype error =
  ErrAccountNotFound
| ErrAccountExists
| ErrInsufficientFunds
| ErrAccountInactive
| ErrInvalidAccountID
| ErrConcurrentUpdate
| ErrTransactionNotFound
| ErrInvalidAmount
| ErrInvalidTransactionType
| ErrMissingCurrency
| ErrMissingFromAccount
| ErrMissingToAccount
| ErrMissingAccounts
| ErrSameAccount
| ErrTransactionAlreadyProcessed
| ErrCurrencyMismatch
| External string
| Wrapped string error
| NilDereference

fun Error :: "error \<Rightarrow> string" where
  "Error ErrAccountNotFound = ''account not found''"
| "Error ErrAccountExists = ''account already exists''"
| "Error ErrInsufficientFunds = ''insufficient funds''"
| "Error ErrAccountInactive = ''account is inactive''"
| "Error ErrInvalidAccountID = ''invalid account ID''"
| "Error ErrConcurrentUpdate = ''concurrent update detected''"
| "Error ErrTransactionNotFound = ''transaction not found''"
| "Error ErrInvalidAmount = ''invalid amount''"
| "Error ErrInvalidTransactionType = ''invalid transaction type''"
| "Error ErrMissingCurrency = ''missing currency''"
| "Error ErrMissingFromAccount = ''missing from account''"
| "Error ErrMissingToAccount = ''missing to account''"
| "Error ErrMissingAccounts = ''missing from and to accounts''"
| "Error ErrSameAccount = ''from and to accounts cannot be the same''"
| "Error ErrTransactionAlreadyProcessed = ''transaction already processed''"
| "Error ErrCurrencyMismatch = ''currency mismatch''"
| "Error (External m) = m"
| "Error (Wrapped m e) = m @ '': '' @ Error e"
| "Error NilDereference = ''invalid memory address or nil pointer dereference''"

section \<open>Transaction validator\<close>

text \<open>\<^verbatim>\<open>TransactionRequest.IsValid\<close>: \<open>None\<close> is Go's \<^verbatim>\<open>nil\<close> error.\<close>

definition IsValid :: "TransactionRequest \<Rightarrow> error option" where
  "IsValid tr =
     (if req_Amount tr \<le> 0 then Some ErrInvalidAmount
      else if req_Currency tr = [] then Some ErrMissingCurrency
      else if req_Type tr = TransactionTypeDeposit then
        (case req_ToAccountID tr of None \<Rightarrow> Some ErrMissingToAccount | Some t \<Rightarrow> None)
      else if req_Type tr = TransactionTypeWithdrawal then
        (case req_FromAccountID tr of None \<Rightarrow> Some ErrMissingFromAccount | Some f \<Rightarrow> None)
      else if req_Type tr = TransactionTypeTransfer then
        (case req_FromAccountID tr of
           None \<Rightarrow> Some ErrMissingAccounts
         | Some f \<Rightarrow>
             (case req_ToAccountID tr of
                None \<Rightarrow> Some ErrMissingAccounts
              | Some t \<Rightarrow> if f = t then Some ErrSameAccount else None))
      else Some ErrInvalidTransactionType)"

text \<open>
  The validator as the specification words it: a list of rules in precedence order,
  each a condition with its error; the first rule whose condition holds decides, and a
  request that meets no rule is valid.
\<close>

fun first_error :: "(bool \<times> error) list \<Rightarrow> error option" where
  "first_error [] = None"
| "first_error ((c, e) # rules) = (if c then Some e else first_error rules)"

definition validation_rules :: "TransactionRequest \<Rightarrow> (bool \<times> error) list" where
  "validation_rules tr =
     [(req_Amount tr \<le> 0, ErrInvalidAmount),
      (req_Currency tr = [], ErrMissingCurrency),
      (req_Type tr = ''deposit'' \<and> req_ToAccountID tr = None, ErrMissingToAccount),
      (req_Type tr = ''withdrawal'' \<and> req_FromAccountID tr = None, ErrMissingFromAccount),
      (req_Type tr = ''transfer'' \<and> (req_FromAccountID tr = None \<or> req_ToAccountID tr = None),
         ErrMissingAccounts),
      (req_Type tr = ''transfer'' \<and> req_FromAccountID tr = req_ToAccountID tr, ErrSameAccount),
      (req_Type tr \<noteq> ''deposit'' \<and> req_Type tr \<noteq> ''withdrawal'' \<and> req_Type tr \<noteq> ''transfer'',
         ErrInvalidTransactionType)]"

section \<open>Account store\<close>

subsection \<open>The in-memory repository of the tests\<close>



subsection \<open>The PostgreSQL repository\<close>

text \<open>
  The accounts table is the list of its rows; \<^verbatim>\<open>id\<close> is its primary key and
  \<^verbatim>\<open>(user_id, currency)\<close> is unique. An \<^verbatim>\<open>UPDATE ... WHERE\<close> rewrites every row
  that meets the condition and reports how many it met. The repository returns copies of
  rows, never references into the table. Failures of the connection are outside the
  model, and so is the table's \<^verbatim>\<open>CHECK (balance >= 0)\<close>: the use cases never submit
  a negative balance (see the section on negative balances below).
\<close>

type_synonym accounts = "Account list"

definition PostgreSQL_GetByID :: "accounts \<Rightarrow> string \<Rightarrow> error + Account" where
  "PostgreSQL_GetByID rows i =
     (case find (\<lambda>r. acc_ID r = i) rows of
        None \<Rightarrow> Inl ErrAccountNotFound
      | Some account \<Rightarrow> Inr account)"

definition PostgreSQL_Create ::
  "string \<Rightarrow> accounts \<Rightarrow> Account \<Rightarrow> (error + Account) \<times> accounts" where
  "PostgreSQL_Create uuid rows account =
     (let a = account\<lparr>acc_ID := (if acc_ID account = [] then uuid else acc_ID account),
                      acc_Version := 1\<rparr>
      in if list_ex (\<lambda>r. acc_ID r = acc_ID a \<or>
                          (acc_UserID r = acc_UserID a \<and> acc_Currency r = acc_Currency a)) rows
         then (Inl ErrAccountExists, rows)
         else (Inr a, rows @ [a]))"

definition PostgreSQL_Update :: "accounts \<Rightarrow> Account \<Rightarrow> error option \<times> accounts" where
  "PostgreSQL_Update rows account =
     (let hit = (\<lambda>r. acc_ID r = acc_ID account \<and> acc_Version r = acc_Version account);
          rowsAffected = length (filter hit rows)
      in if rowsAffected = 0 then (Some ErrConcurrentUpdate, rows)
         else (None,
               map (\<lambda>r. if hit r
                         then r\<lparr>acc_UserID := acc_UserID account,
                                acc_Balance := acc_Balance account,
                                acc_Currency := acc_Currency account,
                                acc_Status := acc_Status account,
                                acc_Version := acc_Version r + 1\<rparr>
                         else r) rows))"

definition PostgreSQL_UpdateBalance ::
  "accounts \<Rightarrow> string \<Rightarrow> int \<Rightarrow> version \<Rightarrow> error option \<times> accounts" where
  "PostgreSQL_UpdateBalance rows i newBalance v =
     (let hit = (\<lambda>r. acc_ID r = i \<and> acc_Version r = v);
          rowsAffected = length (filter hit rows)
      in if rowsAffected = 0 then (Some ErrConcurrentUpdate, rows)
         else (None,
               map (\<lambda>r. if hit r
                         then r\<lparr>acc_Balance := newBalance, acc_Version := acc_Version r + 1\<rparr>
                         else r) rows))"

section \<open>Transaction journal\<close>

text \<open>
  The journal is keyed by the transaction id (MongoDB's \<^verbatim>\<open>_id\<close>). The repository of
  the tests, \<^verbatim>\<open>MockTransactionRepository\<close>, keeps a Go map of the same shape.
\<close>

type_synonym journal = "string \<rightharpoonup> Transaction"

definition Mongo_Create ::
  "string \<Rightarrow> journal \<Rightarrow> Transaction \<Rightarrow> (error + Transaction) \<times> journal" where
  "Mongo_Create uuid j transaction =
     (let t = transaction\<lparr>tx_ID := (if tx_ID transaction = [] then uuid
                                      else tx_ID transaction)\<rparr>
      in case j (tx_ID t) of
           Some old \<Rightarrow>
             (Inl (Wrapped ''failed to create transaction'' (External ''duplicate key'')), j)
         | None \<Rightarrow> (Inr t, j(tx_ID t \<mapsto> t)))"

definition Mongo_GetByID :: "journal \<Rightarrow> string \<Rightarrow> error + Transaction" where
  "Mongo_GetByID j i =
     (case j i of None \<Rightarrow> Inl ErrTransactionNotFound | Some transaction \<Rightarrow> Inr transaction)"

definition Mongo_UpdateStatus ::
  "journal \<Rightarrow> string \<Rightarrow> TransactionStatus \<Rightarrow> string \<Rightarrow> error option \<times> journal" where
  "Mongo_UpdateStatus j i status errorMessage =
     (case j i of
        None \<Rightarrow> (Some ErrTransactionNotFound, j)
      | Some transaction \<Rightarrow>
          (None, j(i \<mapsto> transaction\<lparr>tx_Status := status, tx_ErrorMessage := errorMessage\<rparr>)))"

definition MockTx_UpdateStatus ::
  "journal \<Rightarrow> string \<Rightarrow> TransactionStatus \<Rightarrow> string \<Rightarrow> error option \<times> journal" where
  "MockTx_UpdateStatus m i status errorMessage =
     (case m i of
        None \<Rightarrow> (Some ErrTransactionNotFound, m)
      | Some transaction \<Rightarrow>
          (None, m(i \<mapsto> transaction\<lparr>tx_Status := status, tx_ErrorMessage := errorMessage\<rparr>)))"

section \<open>Dispatch queue\<close>

text \<open>
  A message body is the JSON of a request; \<open>None\<close> is a body that does not decode. The
  broker's answers to \<^verbatim>\<open>QueueDeclare\<close> and \<^verbatim>\<open>Publish\<close> are parameters.
\<close>

type_synonym message = "TransactionRequest option"

record broker =
  QueueDeclare_error :: "error option"
  Publish_error :: "error option"

definition RabbitMQ_Publish ::
  "broker \<Rightarrow> message list \<Rightarrow> message \<Rightarrow> error option \<times> message list" where
  "RabbitMQ_Publish b q msg =
     (case QueueDeclare_error b of
        Some err \<Rightarrow> (Some (Wrapped ''failed to declare queue'' err), q)
      | None \<Rightarrow>
          (case Publish_error b of
             Some err \<Rightarrow> (Some (Wrapped ''failed to publish message'' err), q)
           | None \<Rightarrow> (None, q @ [msg])))"

definition maxRetries :: nat where
  "maxRetries = 3"

text \<open>
  \<^verbatim>\<open>processMessageWithRetry\<close>: the loop over \<open>attempt\<close>, with the handler a
  transformer of the state it works on. The third component is what the loop logs: the
  attempt number and the error of every failed attempt. The sleep between attempts is
  not modelled.
\<close>

function retry_loop ::
  "('s \<Rightarrow> error option \<times> 's) \<Rightarrow> nat \<Rightarrow> error option \<Rightarrow> 's \<Rightarrow> (nat \<times> error) list
     \<Rightarrow> error option \<times> 's \<times> (nat \<times> error) list" where
  "retry_loop handler attempt lastErr s lg =
     (if attempt \<le> maxRetries then
        (case handler s of
           (None, s') \<Rightarrow> (None, s', lg)
         | (Some err, s') \<Rightarrow>
             retry_loop handler (attempt + 1) (Some err) s' (lg @ [(attempt, err)]))
      else
        (case lastErr of
           Some e \<Rightarrow> (Some (Wrapped ''failed after 3 attempts'' e), s, lg)
         | None \<Rightarrow> (Some (External ''failed after 3 attempts: %!w(<nil>)''), s, lg)))"
  by pat_completeness auto
termination
  by (relation "measure (\<lambda>(handler, attempt, lastErr, s, lg). maxRetries + 1 - attempt)") auto

definition processMessageWithRetry ::
  "('s \<Rightarrow> error option \<times> 's) \<Rightarrow> 's \<Rightarrow> error option \<times> 's \<times> (nat \<times> error) list" where
  "processMessageWithRetry handler s = retry_loop handler 1 None s []"

text \<open>The body of the consuming loop of \<^verbatim>\<open>Subscribe\<close> for one delivery.\<close>

datatype acknowledgement = Ack | Nack

definition deliver ::
  "('s \<Rightarrow> error option \<times> 's) \<Rightarrow> 's \<Rightarrow> acknowledgement \<times> 's \<times> (nat \<times> error) list" where
  "deliver handler s =
     (case processMessageWithRetry handler s of
        (Some err, s', lg) \<Rightarrow> (Nack, s', lg)
      | (None, s', lg) \<Rightarrow> (Ack, s', lg))"

section \<open>Use cases\<close>

text \<open>
  The processor and the API server share the accounts table, the journal and the queue.
  Several processors and API calls may run at once, and the only atomic steps are the
  single repository calls. The writes of everybody else between two repository calls of
  one use case are an \<open>interference\<close>: \<open>env k\<close> is what the others do to the accounts
  table just before the use case makes its \<open>k\<close>-th call (counted from 0) to the account
  repository. \<open>no_interference\<close> is a use case running alone.
\<close>

record world =
  accounts :: accounts
  journal :: journal
  queue :: "message list"

type_synonym interference = "nat \<Rightarrow> accounts \<Rightarrow> accounts"

definition no_interference :: interference where
  "no_interference k rows = rows"

subsection \<open>AccountUseCase\<close>

definition CreateAccount ::
  "string \<Rightarrow> world \<Rightarrow> string \<Rightarrow> int \<Rightarrow> string \<Rightarrow> (error + Account) \<times> world" where
  "CreateAccount uuid w userID initialBalance currency =
     (if initialBalance < 0 then (Inl ErrInvalidAmount, w)
      else if currency = [] then (Inl ErrMissingCurrency, w)
      else
        (case PostgreSQL_Create uuid (accounts w)
                \<lparr>acc_ID = uuid, acc_UserID = userID, acc_Balance = initialBalance,
                 acc_Currency = currency, acc_Status = ''active'', acc_Version = 1\<rparr> of
           (Inl err, rows) \<Rightarrow> (Inl err, w\<lparr>accounts := rows\<rparr>)
         | (Inr account, rows) \<Rightarrow> (Inr account, w\<lparr>accounts := rows\<rparr>)))"

definition DeactivateAccount :: "accounts \<Rightarrow> string \<Rightarrow> error option \<times> accounts" where
  "DeactivateAccount rows i =
     (case PostgreSQL_GetByID rows i of
        Inl err \<Rightarrow> (Some err, rows)
      | Inr account \<Rightarrow> PostgreSQL_Update rows (account\<lparr>acc_Status := ''inactive''\<rparr>))"

subsection \<open>TransactionUseCase: acceptance\<close>

text \<open>
  What leaves the program during acceptance comes back as a parameter: the two ids drawn
  from \<^verbatim>\<open>uuid.New()\<close>, the result of \<^verbatim>\<open>json.Marshal\<close> and the broker's answers.
\<close>

record outcomes =
  uuid_request :: string
  uuid_journal :: string
  Marshal_error :: "error option"
  broker_answers :: broker

definition ProcessTransaction ::
  "outcomes \<Rightarrow> world \<Rightarrow> TransactionRequest \<Rightarrow> (error + Transaction) \<times> world" where
  "ProcessTransaction out w request0 =
     (case IsValid request0 of
        Some err \<Rightarrow> (Inl err, w)
      | None \<Rightarrow>
          (let request = (if req_ID request0 = [] then request0\<lparr>req_ID := uuid_request out\<rparr>
                          else request0);
               transaction =
                 \<lparr>tx_ID = req_ID request, tx_Type = req_Type request,
                  tx_FromAccountID = req_FromAccountID request,
                  tx_ToAccountID = req_ToAccountID request,
                  tx_Amount = req_Amount request, tx_Currency = req_Currency request,
                  tx_Status = TransactionStatusPending,
                  tx_Description = req_Description request,
                  tx_Reference = req_Reference request, tx_ErrorMessage = []\<rparr>
           in case Mongo_Create (uuid_journal out) (journal w) transaction of
                (Inl err, j) \<Rightarrow> (Inl (Wrapped ''failed to create transaction'' err), w\<lparr>journal := j\<rparr>)
              | (Inr created, j) \<Rightarrow>
                  (case Marshal_error out of
                     Some err \<Rightarrow>
                       (Inl (Wrapped ''failed to marshal transaction request'' err),
                        w\<lparr>journal := j\<rparr>)
                   | None \<Rightarrow>
                       (case RabbitMQ_Publish (broker_answers out) (queue w) (Some request) of
                          (Some err, q) \<Rightarrow>
                            (Inl (Wrapped ''failed to publish transaction'' err),
                             w\<lparr>journal := snd (Mongo_UpdateStatus j (tx_ID created)
                                                   TransactionStatusFailed (Error err)),
                               queue := q\<rparr>)
                        | (None, q) \<Rightarrow> (Inr created, w\<lparr>journal := j, queue := q\<rparr>)))))"

definition CancelTransaction :: "world \<Rightarrow> string \<Rightarrow> error option \<times> world" where
  "CancelTransaction w i =
     (case Mongo_GetByID (journal w) i of
        Inl err \<Rightarrow> (Some err, w)
      | Inr transaction \<Rightarrow>
          if tx_Status transaction \<noteq> TransactionStatusPending
          then (Some ErrTransactionAlreadyProcessed, w)
          else (case Mongo_UpdateStatus (journal w) i TransactionStatusCancelled
                       ''Cancelled by user'' of
                  (r, j) \<Rightarrow> (r, w\<lparr>journal := j\<rparr>)))"

subsection \<open>TransactionUseCase: processing\<close>

definition processDeposit ::
  "interference \<Rightarrow> world \<Rightarrow> TransactionRequest \<Rightarrow> error option \<times> world" where
  "processDeposit env w request =
     (case req_ToAccountID request of
        None \<Rightarrow> (Some NilDereference, w)
      | Some toID \<Rightarrow>
          (let s0 = env 0 (accounts w) in
           case PostgreSQL_GetByID s0 toID of
             Inl err \<Rightarrow> (Some err, w\<lparr>accounts := s0\<rparr>)
           | Inr account \<Rightarrow>
               if acc_Status account \<noteq> ''active''
               then (Some ErrAccountInactive, w\<lparr>accounts := s0\<rparr>)
               else if acc_Currency account \<noteq> req_Currency request
               then (Some ErrCurrencyMismatch, w\<lparr>accounts := s0\<rparr>)
               else
                 (case PostgreSQL_UpdateBalance (env 1 s0) (acc_ID account)
                         (acc_Balance account + req_Amount request) (acc_Version account) of
                    (Some err, s1) \<Rightarrow> (Some err, w\<lparr>accounts := s1\<rparr>)
                  | (None, s1) \<Rightarrow>
                      (case Mongo_UpdateStatus (journal w) (req_ID request)
                              TransactionStatusCompleted [] of
                         (r, j) \<Rightarrow> (r, w\<lparr>accounts := s1, journal := j\<rparr>)))))"

definition processWithdrawal ::
  "interference \<Rightarrow> world \<Rightarrow> TransactionRequest \<Rightarrow> error option \<times> world" where
  "processWithdrawal env w request =
     (case req_FromAccountID request of
        None \<Rightarrow> (Some NilDereference, w)
      | Some fromID \<Rightarrow>
          (let s0 = env 0 (accounts w) in
           case PostgreSQL_GetByID s0 fromID of
             Inl err \<Rightarrow> (Some err, w\<lparr>accounts := s0\<rparr>)
           | Inr account \<Rightarrow>
               if acc_Status account \<noteq> ''active''
               then (Some ErrAccountInactive, w\<lparr>accounts := s0\<rparr>)
               else if acc_Currency account \<noteq> req_Currency request
               then (Some ErrCurrencyMismatch, w\<lparr>accounts := s0\<rparr>)
               else if acc_Balance account < req_Amount request
               then (Some ErrInsufficientFunds, w\<lparr>accounts := s0\<rparr>)
               else
                 (case PostgreSQL_UpdateBalance (env 1 s0) (acc_ID account)
                         (acc_Balance account - req_Amount request) (acc_Version account) of
                    (Some err, s1) \<Rightarrow> (Some err, w\<lparr>accounts := s1\<rparr>)
                  | (None, s1) \<Rightarrow>
                      (case Mongo_UpdateStatus (journal w) (req_ID request)
                              TransactionStatusCompleted [] of
                         (r, j) \<Rightarrow> (r, w\<lparr>accounts := s1, journal := j\<rparr>)))))"

text \<open>
  \<^verbatim>\<open>processTransfer\<close> makes up to five calls to the account repository: the two reads,
  the debit, the credit and, when the credit fails, the rollback, whose own result the
  code drops.
\<close>

definition processTransfer ::
  "interference \<Rightarrow> world \<Rightarrow> TransactionRequest \<Rightarrow> error option \<times> world" where
  "processTransfer env w request =
     (case req_FromAccountID request of
        None \<Rightarrow> (Some NilDereference, w)
      | Some fromID \<Rightarrow>
          (let s0 = env 0 (accounts w) in
           case PostgreSQL_GetByID s0 fromID of
             Inl err \<Rightarrow> (Some err, w\<lparr>accounts := s0\<rparr>)
           | Inr fromAccount \<Rightarrow>
               (case req_ToAccountID request of
                  None \<Rightarrow> (Some NilDereference, w\<lparr>accounts := s0\<rparr>)
                | Some toID \<Rightarrow>
                    (let s1 = env 1 s0 in
                     case PostgreSQL_GetByID s1 toID of
                       Inl err \<Rightarrow> (Some err, w\<lparr>accounts := s1\<rparr>)
                     | Inr toAccount \<Rightarrow>
                         if acc_Status fromAccount \<noteq> ''active'' \<or> acc_Status toAccount \<noteq> ''active''
                         then (Some ErrAccountInactive, w\<lparr>accounts := s1\<rparr>)
                         else if acc_Currency fromAccount \<noteq> req_Currency request \<or>
                                 acc_Currency toAccount \<noteq> req_Currency request
                         then (Some ErrCurrencyMismatch, w\<lparr>accounts := s1\<rparr>)
                         else if acc_Balance fromAccount < req_Amount request
                         then (Some ErrInsufficientFunds, w\<lparr>accounts := s1\<rparr>)
                         else
                           (case PostgreSQL_UpdateBalance (env 2 s1) (acc_ID fromAccount)
                                   (acc_Balance fromAccount - req_Amount request)
                                   (acc_Version fromAccount) of
                              (Some err, s2) \<Rightarrow> (Some err, w\<lparr>accounts := s2\<rparr>)
                            | (None, s2) \<Rightarrow>
                                (case PostgreSQL_UpdateBalance (env 3 s2) (acc_ID toAccount)
                                        (acc_Balance toAccount + req_Amount request)
                                        (acc_Version toAccount) of
                                   (Some err, s3) \<Rightarrow>
                                     (Some err,
                                      w\<lparr>accounts :=
                                          snd (PostgreSQL_UpdateBalance (env 4 s3)
                                                 (acc_ID fromAccount) (acc_Balance fromAccount)
                                                 (acc_Version fromAccount + 1))\<rparr>)
                                 | (None, s3) \<Rightarrow>
                                     (case Mongo_UpdateStatus (journal w) (req_ID request)
                                             TransactionStatusCompleted [] of
                                        (r, j) \<Rightarrow> (r, w\<lparr>accounts := s3, journal := j\<rparr>))))))))"

definition ProcessTransactionSync ::
  "interference \<Rightarrow> world \<Rightarrow> TransactionRequest \<Rightarrow> error option \<times> world" where
  "ProcessTransactionSync env w request =
     (case IsValid request of
        Some err \<Rightarrow> (Some err, w)
      | None \<Rightarrow>
          if req_Type request = TransactionTypeDeposit then processDeposit env w request
          else if req_Type request = TransactionTypeWithdrawal then processWithdrawal env w request
          else if req_Type request = TransactionTypeTransfer then processTransfer env w request
          else (Some ErrInvalidTransactionType, w))"

text \<open>The handler that \<^verbatim>\<open>StartTransactionProcessor\<close> subscribes to the queue.\<close>

definition handler :: "interference \<Rightarrow> message \<Rightarrow> world \<Rightarrow> error option \<times> world" where
  "handler env data w =
     (case data of
        None \<Rightarrow> (Some (External ''invalid character''), w)
      | Some request \<Rightarrow>
          (case ProcessTransactionSync env w request of
             (Some err, w') \<Rightarrow>
               (Some err,
                w'\<lparr>journal := snd (Mongo_UpdateStatus (journal w') (req_ID request)
                                      TransactionStatusFailed (Error err))\<rparr>)
           | (None, w') \<Rightarrow> (None, w')))"

section \<open>The account side of processing\<close>

text \<open>
  The accounts table that each kind of processing leaves: the account repository calls
  of \<open>processDeposit\<close>, \<open>processWithdrawal\<close> and \<open>processTransfer\<close> in their order,
  without the journal.
\<close>

definition deposit_rows :: "interference \<Rightarrow> accounts \<Rightarrow> TransactionRequest \<Rightarrow> accounts" where
  "deposit_rows env rows request =
     (case req_ToAccountID request of
        None \<Rightarrow> rows
      | Some toID \<Rightarrow>
          (case PostgreSQL_GetByID (env 0 rows) toID of
             Inl err \<Rightarrow> env 0 rows
           | Inr account \<Rightarrow>
               if acc_Status account \<noteq> ''active'' \<or> acc_Currency account \<noteq> req_Currency request
               then env 0 rows
               else snd (PostgreSQL_UpdateBalance (env 1 (env 0 rows)) (acc_ID account)
                           (acc_Balance account + req_Amount request) (acc_Version account))))"

definition withdrawal_rows :: "interference \<Rightarrow> accounts \<Rightarrow> TransactionRequest \<Rightarrow> accounts" where
  "withdrawal_rows env rows request =
     (case req_FromAccountID request of
        None \<Rightarrow> rows
      | Some fromID \<Rightarrow>
          (case PostgreSQL_GetByID (env 0 rows) fromID of
             Inl err \<Rightarrow> env 0 rows
           | Inr account \<Rightarrow>
               if acc_Status account \<noteq> ''active'' \<or> acc_Currency account \<noteq> req_Currency request
                  \<or> acc_Balance account < req_Amount request
               then env 0 rows
               else snd (PostgreSQL_UpdateBalance (env 1 (env 0 rows)) (acc_ID account)
                           (acc_Balance account - req_Amount request) (acc_Version account))))"

definition transfer_rows :: "interference \<Rightarrow> accounts \<Rightarrow> TransactionRequest \<Rightarrow> accounts" where
  "transfer_rows env rows request =
     (case req_FromAccountID request of
        None \<Rightarrow> rows
      | Some fromID \<Rightarrow>
          (case PostgreSQL_GetByID (env 0 rows) fromID of
             Inl err \<Rightarrow> env 0 rows
           | Inr fromAccount \<Rightarrow>
               (case req_ToAccountID request of
                  None \<Rightarrow> env 0 rows
                | Some toID \<Rightarrow>
                    (case PostgreSQL_GetByID (env 1 (env 0 rows)) toID of
                       Inl err \<Rightarrow> env 1 (env 0 rows)
                     | Inr toAccount \<Rightarrow>
                         if acc_Status fromAccount \<noteq> ''active'' \<or> acc_Status toAccount \<noteq> ''active''
                            \<or> acc_Currency fromAccount \<noteq> req_Currency request
                            \<or> acc_Currency toAccount \<noteq> req_Currency request
                            \<or> acc_Balance fromAccount < req_Amount request
                         then env 1 (env 0 rows)
                         else
                           (case PostgreSQL_UpdateBalance (env 2 (env 1 (env 0 rows)))
                                   (acc_ID fromAccount)
                                   (acc_Balance fromAccount - req_Amount request)
                                   (acc_Version fromAccount) of
                              (Some err, s2) \<Rightarrow> s2
                            | (None, s2) \<Rightarrow>
                                (case PostgreSQL_UpdateBalance (env 3 s2) (acc_ID toAccount)
                                        (acc_Balance toAccount + req_Amount request)
                                        (acc_Version toAccount) of
                                   (Some err, s3) \<Rightarrow>
                                     snd (PostgreSQL_UpdateBalance (env 4 s3)
                                            (acc_ID fromAccount) (acc_Balance fromAccount)
                                            (acc_Version fromAccount + 1))
                                 | (None, s3) \<Rightarrow> s3))))))"

text \<open>
  The two accounts as \<open>processTransfer\<close> reads them, when it gets as far as the debit:
  both ids present, both accounts found, active, in the request's currency, and the source
  holds enough.
\<close>

definition transfer_reads ::
  "interference \<Rightarrow> accounts \<Rightarrow> TransactionRequest \<Rightarrow> (Account \<times> Account) option" where
  "transfer_reads env rows request =
     (case req_FromAccountID request of
        None \<Rightarrow> None
      | Some fromID \<Rightarrow>
          (case PostgreSQL_GetByID (env 0 rows) fromID of
             Inl err \<Rightarrow> None
           | Inr fromAccount \<Rightarrow>
               (case req_ToAccountID request of
                  None \<Rightarrow> None
                | Some toID \<Rightarrow>
                    (case PostgreSQL_GetByID (env 1 (env 0 rows)) toID of
                       Inl err \<Rightarrow> None
                     | Inr toAccount \<Rightarrow>
                         if acc_Status fromAccount \<noteq> ''active'' \<or> acc_Status toAccount \<noteq> ''active''
                            \<or> acc_Currency fromAccount \<noteq> req_Currency request
                            \<or> acc_Currency toAccount \<noteq> req_Currency request
                            \<or> acc_Balance fromAccount < req_Amount request
                         then None
                         else Some (fromAccount, toAccount)))))"


section \<open>Runs, invariants and interference\<close>

text \<open>
  A balance invariant of the accounts table, the interferences that respect it, and the
  events of a run: an account is created, or the handler processes one message.
\<close>

definition nonneg :: "accounts \<Rightarrow> bool" where
  "nonneg rows = list_all (\<lambda>r. 0 \<le> acc_Balance r) rows"

definition benign :: "interference \<Rightarrow> bool" where
  "benign env = (\<forall>k rows. nonneg rows \<longrightarrow> nonneg (env k rows))"

datatype event =
  Create string string int string
| Handle interference message

fun step :: "world \<Rightarrow> event \<Rightarrow> world" where
  "step w (Create uuid userID initialBalance currency) =
     snd (CreateAccount uuid w userID initialBalance currency)"
| "step w (Handle env data) = snd (handler env data w)"

fun benign_event :: "event \<Rightarrow> bool" where
  "benign_event (Create uuid userID initialBalance currency) = True"
| "benign_event (Handle env data) = benign env"

definition run :: "world \<Rightarrow> event list \<Rightarrow> world" where
  "run w evs = foldl step w evs"

text \<open>
  The sum of the balances held in one currency. An interference is orderly when it behaves
  as other clients of the account store do: it keeps \<^verbatim>\<open>id\<close> a key, never removes a
  row, never lowers a version, changes a row only together with its version, and leaves
  the sum of the currency as it was.
\<close>

definition total :: "string \<Rightarrow> accounts \<Rightarrow> int" where
  "total c rows = sum_list (map acc_Balance (filter (\<lambda>r. acc_Currency r = c) rows))"

definition evolves :: "accounts \<Rightarrow> accounts \<Rightarrow> bool" where
  "evolves rows rows' =
     (distinct (map acc_ID rows') \<and>
      (\<forall>r\<in>set rows. \<exists>r'\<in>set rows'.
          acc_ID r' = acc_ID r \<and> acc_Version r \<le> acc_Version r' \<and>
          (acc_Version r' = acc_Version r \<longrightarrow> r' = r)))"

definition orderly :: "string \<Rightarrow> interference \<Rightarrow> bool" where
  "orderly c env =
     (\<forall>k rows. distinct (map acc_ID rows) \<longrightarrow>
        evolves rows (env k rows) \<and> total c (env k rows) = total c rows)"



text \<open>A handler that counts how often it is invoked, beside the state it works on.\<close>

definition counting ::
  "('s \<Rightarrow> error option \<times> 's) \<Rightarrow> nat \<times> 's \<Rightarrow> error option \<times> (nat \<times> 's)" where
  "counting h = (\<lambda>(n, s). case h s of (r, s') \<Rightarrow> (r, (Suc n, s')))"

text \<open>The permanent business-rule errors.\<close>

definition permanent :: "error \<Rightarrow> bool" where
  "permanent e = (e = ErrInsufficientFunds \<or> e = ErrAccountInactive \<or> e = ErrCurrencyMismatch)"

section \<open>Example data\<close>

text \<open>
  Three accounts in one currency and three requests with their journal records, used
  where a property is shown on concrete values.
\<close>

definition alice :: Account where
  "alice = \<lparr>acc_ID = ''A'', acc_UserID = ''alice'', acc_Balance = 1000, acc_Currency = ''USD'',
            acc_Status = ''active'', acc_Version = 1\<rparr>"

definition bob :: Account where
  "bob = \<lparr>acc_ID = ''B'', acc_UserID = ''bob'', acc_Balance = 500, acc_Currency = ''USD'',
          acc_Status = ''active'', acc_Version = 3\<rparr>"

definition carol :: Account where
  "carol = \<lparr>acc_ID = ''C'', acc_UserID = ''carol'', acc_Balance = 100, acc_Currency = ''USD'',
            acc_Status = ''active'', acc_Version = 1\<rparr>"

definition transfer150 :: TransactionRequest where
  "transfer150 = \<lparr>req_ID = ''t1'', req_Type = ''transfer'', req_FromAccountID = Some ''A'',
                   req_ToAccountID = Some ''B'', req_Amount = 150, req_Currency = ''USD'',
                   req_Description = [], req_Reference = []\<rparr>"

definition withdraw200 :: TransactionRequest where
  "withdraw200 = \<lparr>req_ID = ''t2'', req_Type = ''withdrawal'', req_FromAccountID = Some ''C'',
                   req_ToAccountID = None, req_Amount = 200, req_Currency = ''USD'',
                   req_Description = [], req_Reference = []\<rparr>"

definition deposit100 :: TransactionRequest where
  "deposit100 = \<lparr>req_ID = ''t3'', req_Type = ''deposit'', req_FromAccountID = None,
                  req_ToAccountID = Some ''B'', req_Amount = 100, req_Currency = ''USD'',
                  req_Description = [], req_Reference = []\<rparr>"

text \<open>The journal record of a request, in a given status.\<close>

definition record_of :: "TransactionRequest \<Rightarrow> TransactionStatus \<Rightarrow> string \<Rightarrow> Transaction" where
  "record_of request status msg =
     \<lparr>tx_ID = req_ID request, tx_Type = req_Type request,
      tx_FromAccountID = req_FromAccountID request, tx_ToAccountID = req_ToAccountID request,
      tx_Amount = req_Amount request, tx_Currency = req_Currency request,
      tx_Status = status, tx_Description = req_Description request,
      tx_Reference = req_Reference request, tx_ErrorMessage = msg\<rparr>"

definition pending_journal :: journal where
  "pending_journal =
     [''t1'' \<mapsto> record_of transfer150 TransactionStatusPending [],
      ''t2'' \<mapsto> record_of withdraw200 TransactionStatusPending [],
      ''t3'' \<mapsto> record_of deposit100 TransactionStatusPending []]"

definition bank :: world where
  "bank = \<lparr>accounts = [alice, bob, carol], journal = pending_journal, queue = []\<rparr>"

text \<open>An acceptance during which the broker refuses the message.\<close>

definition broker_down :: outcomes where
  "broker_down = \<lparr>uuid_request = ''u1'', uuid_journal = ''u2'', Marshal_error = None,
                   broker_answers = \<lparr>QueueDeclare_error = None,
                                      Publish_error = Some (External ''channel closed'')\<rparr>\<rparr>"

text \<open>The bank after the deposit request was delivered once.\<close>

definition bank_after_deposit :: world where
  "bank_after_deposit = fst (snd (deliver (handler no_interference (Some deposit100)) bank))"

text \<open>The bank after the deposit request, still pending, was cancelled.\<close>

definition bank_after_cancel :: world where
  "bank_after_cancel = snd (CancelTransaction bank ''t3'')"

text \<open>
  Two interferences with the transfer of the example, both between its debit and its
  credit: another client deactivates the destination B, or B and the source A.
\<close>

definition deactivations :: interference where
  "deactivations k rows =
     (if k = 3 then snd (DeactivateAccount (snd (DeactivateAccount rows ''B'')) ''A'') else rows)"


text \<open>A run of four events, with an account created first.\<close>

definition example_events :: "event list" where
  "example_events =
     [Create ''D'' ''dave'' 50 ''USD'',
      Handle no_interference (Some deposit100),
      Handle deactivations (Some transfer150),
      Handle no_interference (Some withdraw200)]"


section \<open>Facts about the accounts table\<close>

lemma GetByID_Inr:
  "PostgreSQL_GetByID rows i = Inr a \<Longrightarrow> a \<in> set rows \<and> acc_ID a = i"
  by (auto simp: PostgreSQL_GetByID_def find_Some_iff split: option.splits)

lemma GetByID_Inl:
  "PostgreSQL_GetByID rows i = Inl e \<Longrightarrow>
     e = ErrAccountNotFound \<and> (\<forall>r\<in>set rows. acc_ID r \<noteq> i)"
  by (auto simp: PostgreSQL_GetByID_def find_None_iff split: option.splits)

lemma distinct_ids_unique:
  "distinct (map acc_ID rows) \<Longrightarrow> a \<in> set rows \<Longrightarrow> r \<in> set rows \<Longrightarrow>
     acc_ID r = acc_ID a \<Longrightarrow> r = a"
  by (meson distinct_map inj_onD)

lemma GetByID_member:
  assumes d: "distinct (map acc_ID rows)" and m: "a \<in> set rows"
  shows "PostgreSQL_GetByID rows (acc_ID a) = Inr a"
proof -
  obtain b where b: "find (\<lambda>r. acc_ID r = acc_ID a) rows = Some b"
    using m by (cases "find (\<lambda>r. acc_ID r = acc_ID a) rows") (auto simp: find_None_iff)
  then have "b \<in> set rows" "acc_ID b = acc_ID a" by (auto simp: find_Some_iff)
  then have "b = a" using distinct_ids_unique[OF d m] by blast
  then show ?thesis using b by (simp add: PostgreSQL_GetByID_def)
qed

text \<open>With \<^verbatim>\<open>id\<close> a key, the statement of \<open>UpdateBalance\<close> meets at most the row read.\<close>

lemma UpdateBalance_hit:
  assumes "distinct (map acc_ID rows)" "PostgreSQL_GetByID rows i = Inr a" "acc_Version a = v"
  shows "PostgreSQL_UpdateBalance rows i nb v =
     (None, map (\<lambda>r. if acc_ID r = i
                       then r\<lparr>acc_Balance := nb, acc_Version := acc_Version r + 1\<rparr> else r) rows)"
proof -
  have mem: "a \<in> set rows" "acc_ID a = i" using GetByID_Inr[OF assms(2)] by auto
  have hit: "\<And>r. r \<in> set rows \<Longrightarrow> (acc_ID r = i \<and> acc_Version r = v) = (acc_ID r = i)"
    using distinct_ids_unique[OF assms(1) mem(1)] mem(2) assms(3) by auto
  have ne: "filter (\<lambda>r. acc_ID r = i \<and> acc_Version r = v) rows \<noteq> []"
    using mem assms(3) by (auto simp: filter_empty_conv)
  have "map (\<lambda>r. if acc_ID r = i \<and> acc_Version r = v
                  then r\<lparr>acc_Balance := nb, acc_Version := acc_Version r + 1\<rparr> else r) rows
      = map (\<lambda>r. if acc_ID r = i
                  then r\<lparr>acc_Balance := nb, acc_Version := acc_Version r + 1\<rparr> else r) rows"
    by (rule map_cong[OF refl]) (simp add: hit)
  then show ?thesis using ne
    by (simp add: PostgreSQL_UpdateBalance_def Let_def)
qed


lemma UpdateBalance_absent:
  assumes "PostgreSQL_GetByID rows i = Inl e"
  shows "PostgreSQL_UpdateBalance rows i nb v = (Some ErrConcurrentUpdate, rows)"
proof -
  have "filter (\<lambda>r. acc_ID r = i \<and> acc_Version r = v) rows = []"
    using GetByID_Inl[OF assms] by (auto simp: filter_empty_conv)
  then show ?thesis by (simp add: PostgreSQL_UpdateBalance_def Let_def)
qed

lemma GetByID_map_same:
  assumes "\<And>r. acc_ID (f r) = acc_ID r"
  shows "PostgreSQL_GetByID (map (\<lambda>r. if acc_ID r = i then f r else r) rows) i =
     map_sum id f (PostgreSQL_GetByID rows i)"
  using assms by (induction rows) (simp_all add: PostgreSQL_GetByID_def)


lemma UpdateBalance_error:
  "PostgreSQL_UpdateBalance rows i nb v = (Some e, rows') \<Longrightarrow> e = ErrConcurrentUpdate \<and> rows' = rows"
  by (auto simp: PostgreSQL_UpdateBalance_def Let_def split: if_splits)

lemma UpdateBalance_ids:
  "map acc_ID (snd (PostgreSQL_UpdateBalance rows i nb v)) = map acc_ID rows"
  by (simp add: PostgreSQL_UpdateBalance_def Let_def)

lemma UpdateBalance_snd:
  "snd (PostgreSQL_UpdateBalance rows i nb v) =
     map (\<lambda>r. if acc_ID r = i \<and> acc_Version r = v
               then r\<lparr>acc_Balance := nb, acc_Version := acc_Version r + 1\<rparr> else r) rows"
proof (cases "filter (\<lambda>r. acc_ID r = i \<and> acc_Version r = v) rows = []")
  case True
  then have "\<forall>r\<in>set rows. \<not> (acc_ID r = i \<and> acc_Version r = v)"
    by (simp add: filter_empty_conv)
  then have "map (\<lambda>r. if acc_ID r = i \<and> acc_Version r = v
               then r\<lparr>acc_Balance := nb, acc_Version := acc_Version r + 1\<rparr> else r) rows = rows"
    by (intro map_idI) auto
  then show ?thesis using True by (simp add: PostgreSQL_UpdateBalance_def Let_def)
next
  case False
  then show ?thesis by (simp add: PostgreSQL_UpdateBalance_def Let_def)
qed

section \<open>Facts about processing\<close>

lemma TransactionType_distinct [simp]:
  "TransactionTypeDeposit \<noteq> TransactionTypeWithdrawal"
  "TransactionTypeDeposit \<noteq> TransactionTypeTransfer"
  "TransactionTypeWithdrawal \<noteq> TransactionTypeTransfer"
  "TransactionTypeWithdrawal \<noteq> TransactionTypeDeposit"
  "TransactionTypeTransfer \<noteq> TransactionTypeDeposit"
  "TransactionTypeTransfer \<noteq> TransactionTypeWithdrawal"
  by (simp_all add: TransactionTypeDeposit_def TransactionTypeWithdrawal_def
      TransactionTypeTransfer_def)

lemma processDeposit_journal:
  "accounts (snd (processDeposit env (w\<lparr>journal := j\<rparr>) request)) =
   accounts (snd (processDeposit env w request))"
  by (simp add: processDeposit_def Let_def split: option.splits sum.splits prod.splits)

lemma processWithdrawal_journal:
  "accounts (snd (processWithdrawal env (w\<lparr>journal := j\<rparr>) request)) =
   accounts (snd (processWithdrawal env w request))"
  by (simp add: processWithdrawal_def Let_def split: option.splits sum.splits prod.splits)

lemma processTransfer_journal:
  "accounts (snd (processTransfer env (w\<lparr>journal := j\<rparr>) request)) =
   accounts (snd (processTransfer env w request))"
  by (simp add: processTransfer_def Let_def split: option.splits sum.splits prod.splits)

lemma ProcessTransactionSync_journal:
  "accounts (snd (ProcessTransactionSync env (w\<lparr>journal := j\<rparr>) request)) =
   accounts (snd (ProcessTransactionSync env w request))"
  by (simp add: ProcessTransactionSync_def processDeposit_journal processWithdrawal_journal
      processTransfer_journal split: option.splits)

lemma handler_accounts:
  "accounts (snd (handler env data w)) =
     (case data of None \<Rightarrow> accounts w
      | Some request \<Rightarrow> accounts (snd (ProcessTransactionSync env w request)))"
  by (simp add: handler_def split: option.splits prod.splits)

lemma processDeposit_result:
  assumes "(j (req_ID request) = None) = (j' (req_ID request) = None)"
  shows "fst (processDeposit env (w\<lparr>journal := j\<rparr>) request) =
         fst (processDeposit env (w\<lparr>journal := j'\<rparr>) request)"
  using assms
  by (auto simp: processDeposit_def Let_def Mongo_UpdateStatus_def
      split: option.splits sum.splits prod.splits)

lemma processWithdrawal_result:
  assumes "(j (req_ID request) = None) = (j' (req_ID request) = None)"
  shows "fst (processWithdrawal env (w\<lparr>journal := j\<rparr>) request) =
         fst (processWithdrawal env (w\<lparr>journal := j'\<rparr>) request)"
  using assms
  by (auto simp: processWithdrawal_def Let_def Mongo_UpdateStatus_def
      split: option.splits sum.splits prod.splits)

lemma processTransfer_result:
  assumes "(j (req_ID request) = None) = (j' (req_ID request) = None)"
  shows "fst (processTransfer env (w\<lparr>journal := j\<rparr>) request) =
         fst (processTransfer env (w\<lparr>journal := j'\<rparr>) request)"
  using assms
  by (auto simp: processTransfer_def Let_def Mongo_UpdateStatus_def
      split: option.splits sum.splits prod.splits)

lemma ProcessTransactionSync_result:
  assumes "(j (req_ID request) = None) = (j' (req_ID request) = None)"
  shows "fst (ProcessTransactionSync env (w\<lparr>journal := j\<rparr>) request) =
         fst (ProcessTransactionSync env (w\<lparr>journal := j'\<rparr>) request)"
  using processDeposit_result[where j=j and j'=j' and request=request and env=env and w=w]
    processWithdrawal_result[where j=j and j'=j' and request=request and env=env and w=w]
    processTransfer_result[where j=j and j'=j' and request=request and env=env and w=w] assms
  by (simp add: ProcessTransactionSync_def split: option.splits)

lemma handler_result:
  "fst (handler env (Some request) w) = fst (ProcessTransactionSync env w request)"
  by (simp add: handler_def split: option.splits prod.splits)

lemma UpdateStatus_error:
  "Mongo_UpdateStatus j i st msg = (Some e, j') \<Longrightarrow> e = ErrTransactionNotFound \<and> j' = j"
  by (auto simp: Mongo_UpdateStatus_def split: option.splits)

lemma UpdateStatus_twice:
  "snd (Mongo_UpdateStatus (snd (Mongo_UpdateStatus j i st msg)) i st msg) =
   snd (Mongo_UpdateStatus j i st msg)"
  by (simp add: Mongo_UpdateStatus_def split: option.splits)

lemma UpdateStatus_presence:
  "(snd (Mongo_UpdateStatus j i st msg) k = None) = (j k = None)"
  by (simp add: Mongo_UpdateStatus_def split: option.splits)

lemma processDeposit_accounts:
  "accounts (snd (processDeposit env w request)) = deposit_rows env (accounts w) request"
  by (simp add: processDeposit_def deposit_rows_def Let_def
      split: option.splits sum.splits prod.splits)

lemma processWithdrawal_accounts:
  "accounts (snd (processWithdrawal env w request)) = withdrawal_rows env (accounts w) request"
  by (simp add: processWithdrawal_def withdrawal_rows_def Let_def
      split: option.splits sum.splits prod.splits)

lemma processTransfer_accounts:
  "accounts (snd (processTransfer env w request)) = transfer_rows env (accounts w) request"
  by (simp add: processTransfer_def transfer_rows_def Let_def
      split: option.splits sum.splits prod.splits)

lemma handler_rows:
  "accounts (snd (handler env data w)) =
     (case data of
        None \<Rightarrow> accounts w
      | Some request \<Rightarrow>
          if IsValid request \<noteq> None then accounts w
          else if req_Type request = TransactionTypeDeposit
          then deposit_rows env (accounts w) request
          else if req_Type request = TransactionTypeWithdrawal
          then withdrawal_rows env (accounts w) request
          else if req_Type request = TransactionTypeTransfer
          then transfer_rows env (accounts w) request
          else accounts w)"
  by (simp add: handler_accounts ProcessTransactionSync_def processDeposit_accounts
      processWithdrawal_accounts processTransfer_accounts split: option.splits)

lemma IsValid_amount: "IsValid request = None \<Longrightarrow> 0 < req_Amount request"
  by (simp add: IsValid_def split: if_splits)

text \<open>The definitions that evaluating a use case on the example data unfolds.\<close>

lemmas eval_defs = handler_def ProcessTransactionSync_def IsValid_def processDeposit_def
  processWithdrawal_def processTransfer_def PostgreSQL_GetByID_def PostgreSQL_UpdateBalance_def
  Mongo_UpdateStatus_def no_interference_def Let_def TransactionTypeDeposit_def
  TransactionTypeWithdrawal_def TransactionTypeTransfer_def
  bank_def alice_def bob_def carol_def deposit100_def transfer150_def withdraw200_def
  pending_journal_def record_of_def

lemmas eval_more = eval_defs DeactivateAccount_def PostgreSQL_Update_def

subsection \<open>The retry loop, step by step\<close>

lemma retry_step_ok:
  "attempt \<le> maxRetries \<Longrightarrow> h s = (None, s') \<Longrightarrow>
     retry_loop h attempt lastErr s lg = (None, s', lg)"
  by (subst retry_loop.simps) simp

lemma retry_step_fail:
  "attempt \<le> maxRetries \<Longrightarrow> h s = (Some e, s') \<Longrightarrow>
     retry_loop h attempt lastErr s lg =
     retry_loop h (attempt + 1) (Some e) s' (lg @ [(attempt, e)])"
  by (subst retry_loop.simps) simp

lemma retry_stop:
  "maxRetries < attempt \<Longrightarrow>
     retry_loop h attempt (Some e) s lg = (Some (Wrapped ''failed after 3 attempts'' e), s, lg)"
  by (subst retry_loop.simps) simp

lemma retry_first_success:
  "h s = (None, s') \<Longrightarrow> processMessageWithRetry h s = (None, s', [])"
  by (simp add: processMessageWithRetry_def retry_step_ok maxRetries_def)

lemma retry_all_fail:
  assumes "h s = (Some e1, s1)" "h s1 = (Some e2, s2)" "h s2 = (Some e3, s3)"
  shows "processMessageWithRetry h s =
           (Some (Wrapped ''failed after 3 attempts'' e3), s3, [(1, e1), (2, e2), (3, e3)])"
proof -
  have "retry_loop h 1 None s [] = retry_loop h (1 + 1) (Some e1) s1 ([] @ [(1, e1)])"
    by (rule retry_step_fail) (simp_all add: maxRetries_def assms)
  also have "\<dots> = retry_loop h (1 + 1 + 1) (Some e2) s2 (([] @ [(1, e1)]) @ [(1 + 1, e2)])"
    by (rule retry_step_fail) (simp_all add: maxRetries_def assms)
  also have "\<dots> = retry_loop h (1 + 1 + 1 + 1) (Some e3) s3
                     ((([] @ [(1, e1)]) @ [(1 + 1, e2)]) @ [(1 + 1 + 1, e3)])"
    by (rule retry_step_fail) (simp_all add: maxRetries_def assms)
  also have "\<dots> = (Some (Wrapped ''failed after 3 attempts'' e3), s3,
                     (([] @ [(1, e1)]) @ [(1 + 1, e2)]) @ [(1 + 1 + 1, e3)])"
    by (rule retry_stop) (simp add: maxRetries_def)
  finally show ?thesis by (simp add: processMessageWithRetry_def)
qed

section \<open>Facts about versions and sums\<close>


lemma evolves_distinct: "evolves rows rows' \<Longrightarrow> distinct (map acc_ID rows')"
  by (simp add: evolves_def)

lemma evolvesD:
  "evolves rows rows' \<Longrightarrow> r \<in> set rows \<Longrightarrow>
     \<exists>r'\<in>set rows'. acc_ID r' = acc_ID r \<and> acc_Version r \<le> acc_Version r' \<and>
        (acc_Version r' = acc_Version r \<longrightarrow> r' = r)"
  by (simp add: evolves_def)

lemma evolves_trans:
  assumes "evolves a b" "evolves b c"
  shows "evolves a c"
proof -
  have "\<exists>r''\<in>set c. acc_ID r'' = acc_ID r \<and> acc_Version r \<le> acc_Version r'' \<and>
          (acc_Version r'' = acc_Version r \<longrightarrow> r'' = r)" if "r \<in> set a" for r
  proof -
    from evolvesD[OF assms(1) that]
    obtain r' where r': "r' \<in> set b" "acc_ID r' = acc_ID r" "acc_Version r \<le> acc_Version r'"
        "acc_Version r' = acc_Version r \<longrightarrow> r' = r"
      by (elim bexE conjE)
    from evolvesD[OF assms(2) r'(1)]
    obtain r'' where r'': "r'' \<in> set c" "acc_ID r'' = acc_ID r'" "acc_Version r' \<le> acc_Version r''"
        "acc_Version r'' = acc_Version r' \<longrightarrow> r'' = r'"
      by (elim bexE conjE)
    have v: "acc_Version r \<le> acc_Version r''" using r'(3) r''(3) by linarith
    have "acc_Version r'' = acc_Version r \<longrightarrow> r'' = r"
    proof
      assume e: "acc_Version r'' = acc_Version r"
      then have "acc_Version r' = acc_Version r" using r'(3) r''(3) by linarith
      then show "r'' = r" using e r'(4) r''(4) by simp
    qed
    then show ?thesis using r''(1) r''(2) r'(2) v by (intro bexI[of _ r'']) simp_all
  qed
  then show ?thesis using evolves_distinct[OF assms(2)] by (simp add: evolves_def)
qed

lemma evolves_UpdateBalance:
  assumes "distinct (map acc_ID rows)"
  shows "evolves rows (snd (PostgreSQL_UpdateBalance rows i nb v))"
proof -
  let ?f = "\<lambda>r. if acc_ID r = i \<and> acc_Version r = v
               then r\<lparr>acc_Balance := nb, acc_Version := acc_Version r + 1\<rparr> else r"
  have "\<exists>r'\<in>set (map ?f rows).
          acc_ID r' = acc_ID r \<and> acc_Version r \<le> acc_Version r' \<and>
          (acc_Version r' = acc_Version r \<longrightarrow> r' = r)" if "r \<in> set rows" for r
  proof -
    have "?f r \<in> set (map ?f rows)" using that by (simp only: set_map) (rule imageI)
    moreover have "acc_ID (?f r) = acc_ID r \<and> acc_Version r \<le> acc_Version (?f r) \<and>
          (acc_Version (?f r) = acc_Version r \<longrightarrow> ?f r = r)"
      by simp
    ultimately show ?thesis by blast
  qed
  then show ?thesis
    using assms UpdateBalance_ids[of rows i nb v]
    by (simp only: evolves_def UpdateBalance_snd[symmetric]) simp
qed

text \<open>A compare-and-swap that succeeds found the row as it was read.\<close>

lemma cas_hit:
  assumes "PostgreSQL_GetByID rows0 i = Inr a" and "evolves rows0 rows1"
      and "PostgreSQL_UpdateBalance rows1 i nb (acc_Version a) = (None, s)"
  shows "PostgreSQL_GetByID rows1 i = Inr a"
proof -
  have a: "a \<in> set rows0" "acc_ID a = i" using GetByID_Inr[OF assms(1)] by auto
  have d1: "distinct (map acc_ID rows1)" by (rule evolves_distinct[OF assms(2)])
  from evolvesD[OF assms(2) a(1)]
  obtain r' where r': "r' \<in> set rows1" "acc_ID r' = i" "acc_Version r' = acc_Version a \<longrightarrow> r' = a"
    using a(2) by (elim bexE conjE) simp
  have "filter (\<lambda>r. acc_ID r = i \<and> acc_Version r = acc_Version a) rows1 \<noteq> []"
    using assms(3) by (cases "filter (\<lambda>r. acc_ID r = i \<and> acc_Version r = acc_Version a) rows1 = []")
      (simp_all add: PostgreSQL_UpdateBalance_def Let_def)
  then obtain r1 where r1: "r1 \<in> set rows1" "acc_ID r1 = i" "acc_Version r1 = acc_Version a"
    by (auto simp: filter_empty_conv)
  have "r1 = r'" using distinct_ids_unique[OF d1 r'(1) r1(1)] r1(2) r'(2) by simp
  then have "a \<in> set rows1" using r' r1 by auto
  then show ?thesis using GetByID_member[OF d1, of a] a(2) by simp
qed

lemma total_Cons:
  "total c (r # rows) = (if acc_Currency r = c then acc_Balance r else 0) + total c rows"
  by (simp add: total_def)

lemma total_set_row:
  assumes "distinct (map acc_ID rows)" "a \<in> set rows" "acc_ID a = i"
  shows "total c (map (\<lambda>r. if acc_ID r = i
                           then r\<lparr>acc_Balance := nb, acc_Version := acc_Version r + 1\<rparr>
                           else r) rows) =
         total c rows + (if acc_Currency a = c then nb - acc_Balance a else 0)"
  using assms(1,2)
proof (induction rows)
  case Nil
  then show ?case by simp
next
  case (Cons r rows)
  let ?f = "\<lambda>r. if acc_ID r = i
                           then r\<lparr>acc_Balance := nb, acc_Version := acc_Version r + 1\<rparr>
                           else r"
  have d: "distinct (map acc_ID rows)" "acc_ID r \<notin> acc_ID ` set rows"
    using Cons.prems(1) by simp_all
  show ?case
  proof (cases "r = a")
    case True
    have "\<forall>x\<in>set rows. acc_ID x \<noteq> i"
    proof
      fix x assume "x \<in> set rows"
      then have "acc_ID x \<in> acc_ID ` set rows" by (rule imageI)
      then show "acc_ID x \<noteq> i" using d(2) True assms(3) by metis
    qed
    then have "map ?f rows = rows" by (intro map_idI) simp
    then have "total c (map ?f (r # rows)) =
                 (if acc_Currency a = c then nb else 0) + total c rows"
      using True assms(3) by (simp add: total_Cons)
    also have "\<dots> = total c (r # rows) + (if acc_Currency a = c then nb - acc_Balance a else 0)"
      using True by (simp add: total_Cons)
    finally show ?thesis .
  next
    case False
    then have m: "a \<in> set rows" using Cons.prems(2) by simp
    then have "acc_ID a \<in> acc_ID ` set rows" by (rule imageI)
    then have n: "acc_ID r \<noteq> i" using d(2) assms(3) by metis
    have "total c (map ?f (r # rows)) =
            (if acc_Currency r = c then acc_Balance r else 0) + total c (map ?f rows)"
      using n by (simp add: total_Cons)
    also have "\<dots> = (if acc_Currency r = c then acc_Balance r else 0) +
                     (total c rows + (if acc_Currency a = c then nb - acc_Balance a else 0))"
      using Cons.IH[OF d(1) m] by simp
    also have "\<dots> = total c (r # rows) + (if acc_Currency a = c then nb - acc_Balance a else 0)"
      by (simp add: total_Cons)
    finally show ?thesis .
  qed
qed

lemma total_UpdateBalance:
  assumes "distinct (map acc_ID rows)" "PostgreSQL_GetByID rows i = Inr a"
      and "PostgreSQL_UpdateBalance rows i nb (acc_Version a) = (r, s)"
  shows "r = None \<and>
         total c s = total c rows + (if acc_Currency a = c then nb - acc_Balance a else 0) \<and>
         PostgreSQL_GetByID s i = Inr (a\<lparr>acc_Balance := nb, acc_Version := acc_Version a + 1\<rparr>)"
proof -
  have a: "a \<in> set rows" "acc_ID a = i" using GetByID_Inr[OF assms(2)] by auto
  have s: "(r, s) = (None, map (\<lambda>r. if acc_ID r = i
                       then r\<lparr>acc_Balance := nb, acc_Version := acc_Version r + 1\<rparr> else r) rows)"
    using UpdateBalance_hit[OF assms(1,2) refl, of nb] assms(3) by simp
  then show ?thesis
    using total_set_row[OF assms(1) a, of c nb] assms(2)
    by (simp add: GetByID_map_same)
qed


lemma transfer_rows_read:
  assumes "transfer_reads env rows request = Some (fromAccount, toAccount)"
  shows "transfer_rows env rows request =
           (case PostgreSQL_UpdateBalance (env 2 (env 1 (env 0 rows))) (acc_ID fromAccount)
                   (acc_Balance fromAccount - req_Amount request) (acc_Version fromAccount) of
              (Some err, s2) \<Rightarrow> s2
            | (None, s2) \<Rightarrow>
                (case PostgreSQL_UpdateBalance (env 3 s2) (acc_ID toAccount)
                        (acc_Balance toAccount + req_Amount request) (acc_Version toAccount) of
                   (Some err, s3) \<Rightarrow>
                     snd (PostgreSQL_UpdateBalance (env 4 s3) (acc_ID fromAccount)
                            (acc_Balance fromAccount) (acc_Version fromAccount + 1))
                 | (None, s3) \<Rightarrow> s3))"
    and "PostgreSQL_GetByID (env 0 rows) (acc_ID fromAccount) = Inr fromAccount"
    and "PostgreSQL_GetByID (env 1 (env 0 rows)) (acc_ID toAccount) = Inr toAccount"
    and "acc_Currency fromAccount = req_Currency request"
    and "acc_Currency toAccount = req_Currency request"
proof -
  obtain fromID toID where ids: "req_FromAccountID request = Some fromID"
      "req_ToAccountID request = Some toID"
    and f: "PostgreSQL_GetByID (env 0 rows) fromID = Inr fromAccount"
    and t: "PostgreSQL_GetByID (env 1 (env 0 rows)) toID = Inr toAccount"
    and ok: "\<not> (acc_Status fromAccount \<noteq> ''active'' \<or> acc_Status toAccount \<noteq> ''active''
                \<or> acc_Currency fromAccount \<noteq> req_Currency request
                \<or> acc_Currency toAccount \<noteq> req_Currency request
                \<or> acc_Balance fromAccount < req_Amount request)"
    using assms
    by (auto simp: transfer_reads_def split: option.splits sum.splits if_splits)
  have fi: "acc_ID fromAccount = fromID" using GetByID_Inr[OF f] by simp
  have ti: "acc_ID toAccount = toID" using GetByID_Inr[OF t] by simp
  show "PostgreSQL_GetByID (env 0 rows) (acc_ID fromAccount) = Inr fromAccount"
    using f fi by simp
  show "PostgreSQL_GetByID (env 1 (env 0 rows)) (acc_ID toAccount) = Inr toAccount"
    using t ti by simp
  show "acc_Currency fromAccount = req_Currency request" using ok by simp
  show "acc_Currency toAccount = req_Currency request" using ok by simp
  show "transfer_rows env rows request =
           (case PostgreSQL_UpdateBalance (env 2 (env 1 (env 0 rows))) (acc_ID fromAccount)
                   (acc_Balance fromAccount - req_Amount request) (acc_Version fromAccount) of
              (Some err, s2) \<Rightarrow> s2
            | (None, s2) \<Rightarrow>
                (case PostgreSQL_UpdateBalance (env 3 s2) (acc_ID toAccount)
                        (acc_Balance toAccount + req_Amount request) (acc_Version toAccount) of
                   (Some err, s3) \<Rightarrow>
                     snd (PostgreSQL_UpdateBalance (env 4 s3) (acc_ID fromAccount)
                            (acc_Balance fromAccount) (acc_Version fromAccount + 1))
                 | (None, s3) \<Rightarrow> s3))"
    using ids f t ok by (simp add: transfer_rows_def)
qed

lemma orderlyD:
  assumes "orderly c env" "distinct (map acc_ID rows)"
  shows "evolves rows (env k rows)" "total c (env k rows) = total c rows"
    "distinct (map acc_ID (env k rows))"
  using assms evolves_distinct[of rows "env k rows"] by (simp_all add: orderly_def)

section \<open>The examples, evaluated\<close>

lemma deposit_once:
  "handler no_interference (Some deposit100) bank =
     (None, bank\<lparr>accounts := [alice, bob\<lparr>acc_Balance := 600, acc_Version := 4\<rparr>, carol],
                journal := pending_journal(''t3'' \<mapsto> record_of deposit100 TransactionStatusCompleted [])\<rparr>)"
  by (simp add: eval_defs)

lemma bank_after_deposit_eq:
  "bank_after_deposit =
     bank\<lparr>accounts := [alice, bob\<lparr>acc_Balance := 600, acc_Version := 4\<rparr>, carol],
          journal := pending_journal(''t3'' \<mapsto> record_of deposit100 TransactionStatusCompleted [])\<rparr>"
  by (simp add: bank_after_deposit_def deliver_def retry_first_success[where h="handler no_interference (Some deposit100)", OF deposit_once])

lemma deposit_twice:
  "handler no_interference (Some deposit100) bank_after_deposit =
     (None, bank\<lparr>accounts := [alice, bob\<lparr>acc_Balance := 700, acc_Version := 5\<rparr>, carol],
                journal := pending_journal(''t3'' \<mapsto> record_of deposit100 TransactionStatusCompleted [])\<rparr>)"
  by (simp add: bank_after_deposit_eq) (simp add: eval_defs)

lemma cancel_t3:
  "CancelTransaction bank ''t3'' =
     (None, bank\<lparr>journal := pending_journal(''t3'' \<mapsto>
                      record_of deposit100 TransactionStatusCancelled ''Cancelled by user'')\<rparr>)"
  by (simp add: CancelTransaction_def Mongo_GetByID_def Mongo_UpdateStatus_def bank_def
      pending_journal_def record_of_def)

lemma deposit_after_cancel:
  "handler no_interference (Some deposit100) bank_after_cancel =
     (None, bank\<lparr>accounts := [alice, bob\<lparr>acc_Balance := 600, acc_Version := 4\<rparr>, carol],
                journal := pending_journal(''t3'' \<mapsto> record_of deposit100 TransactionStatusCompleted [])\<rparr>)"
  by (simp add: bank_after_cancel_def cancel_t3) (simp add: eval_defs)

lemma withdraw_fails:
  "handler no_interference (Some withdraw200) bank =
     (Some ErrInsufficientFunds,
      bank\<lparr>journal := pending_journal(''t2'' \<mapsto>
               record_of withdraw200 TransactionStatusFailed ''insufficient funds'')\<rparr>)"
  by (simp add: eval_defs)



section \<open>The compare-and-swap contract of the account store\<close>



section \<open>Redelivery\<close>

text \<open>
  C2, as claimed, fails. The deposit of 100 to account B was delivered once: its journal
  record is \<open>completed\<close> and B holds 600 at version 4. Delivering the same message again
  is acknowledged and raises B to 700 at version 5.
\<close>

theorem redelivery_counterexample:
  "map_option tx_Status (journal bank_after_deposit ''t3'') = Some TransactionStatusCompleted \<and>
   PostgreSQL_GetByID (accounts bank_after_deposit) ''B'' =
     Inr (bob\<lparr>acc_Balance := 600, acc_Version := 4\<rparr>) \<and>
   fst (deliver (handler no_interference (Some deposit100)) bank_after_deposit) = Ack \<and>
   PostgreSQL_GetByID
     (accounts (fst (snd (deliver (handler no_interference (Some deposit100)) bank_after_deposit))))
     ''B'' = Inr (bob\<lparr>acc_Balance := 700, acc_Version := 5\<rparr>)"
proof -
  have "deliver (handler no_interference (Some deposit100)) bank_after_deposit =
     (Ack, bank\<lparr>accounts := [alice, bob\<lparr>acc_Balance := 700, acc_Version := 5\<rparr>, carol],
                journal := pending_journal(''t3'' \<mapsto> record_of deposit100 TransactionStatusCompleted [])\<rparr>, [])"
    by (simp add: deliver_def retry_first_success[where h="handler no_interference (Some deposit100)", OF deposit_twice])
  then show ?thesis
    by (simp add: bank_after_deposit_eq PostgreSQL_GetByID_def alice_def bob_def carol_def
        record_of_def)
qed

text \<open>
  C2, amended. The handler does not consult the journal before it mutates: for every
  dequeued request, the error it returns (hence whether the message is acknowledged) and
  the accounts table it leaves are the same whatever the journal holds for the request,
  as long as a record exists in both cases or in neither. A message redelivered for a
  transaction in a terminal status is therefore processed as a first delivery is.
\<close>

theorem handler_ignores_journal:
  assumes "(j (req_ID request) = None) = (j' (req_ID request) = None)"
  shows "fst (handler env (Some request) (w\<lparr>journal := j\<rparr>)) =
           fst (handler env (Some request) (w\<lparr>journal := j'\<rparr>)) \<and>
         accounts (snd (handler env (Some request) (w\<lparr>journal := j\<rparr>))) =
           accounts (snd (handler env (Some request) (w\<lparr>journal := j'\<rparr>)))"
  using ProcessTransactionSync_result[where j=j and j'=j' and request=request and env=env and w=w]
    assms
  by (simp add: handler_result handler_accounts ProcessTransactionSync_journal)

theorem handler_ignores_journal_witness:
  "fst (handler no_interference (Some deposit100) bank_after_deposit) = None \<and>
   fst (handler no_interference (Some deposit100)
          (bank_after_deposit\<lparr>journal := pending_journal\<rparr>)) = None \<and>
   accounts (snd (handler no_interference (Some deposit100) bank_after_deposit)) =
     [alice, bob\<lparr>acc_Balance := 700, acc_Version := 5\<rparr>, carol] \<and>
   accounts (snd (handler no_interference (Some deposit100)
                    (bank_after_deposit\<lparr>journal := pending_journal\<rparr>))) =
     [alice, bob\<lparr>acc_Balance := 700, acc_Version := 5\<rparr>, carol]"
proof -
  have "(journal bank_after_deposit (req_ID deposit100) = None) =
        (pending_journal (req_ID deposit100) = None)"
    by (simp add: bank_after_deposit_eq pending_journal_def deposit100_def)
  from handler_ignores_journal[where j="journal bank_after_deposit" and j'=pending_journal
      and request=deposit100 and env=no_interference and w=bank_after_deposit, OF this]
  show ?thesis by (simp add: deposit_twice)
qed

section \<open>Compensation of a failed transfer\<close>

text \<open>
  What the rollback achieves: when the credit fails and the rollback's own
  \<open>UpdateBalance\<close> succeeds, under orderly interference, the source row is back at the
  balance read before the debit, two versions on.
\<close>

lemma rollback_restores_source:
  assumes d: "distinct (map acc_ID rows)" and o: "orderly c env"
    and reads: "transfer_reads env rows request = Some (A, B)"
    and debit: "PostgreSQL_UpdateBalance (env 2 (env 1 (env 0 rows))) (acc_ID A)
                  (acc_Balance A - req_Amount request) (acc_Version A) = (None, s2)"
    and credit: "PostgreSQL_UpdateBalance (env 3 s2) (acc_ID B)
                  (acc_Balance B + req_Amount request) (acc_Version B) = (Some err, s3)"
    and rollback: "PostgreSQL_UpdateBalance (env 4 s3) (acc_ID A) (acc_Balance A)
                  (acc_Version A + 1) = (None, s4)"
  shows "transfer_rows env rows request = s4 \<and>
         PostgreSQL_GetByID s4 (acc_ID A) = Inr (A\<lparr>acc_Version := acc_Version A + 2\<rparr>)"
proof -
  note rd = transfer_rows_read[OF reads]
  let ?amt = "req_Amount request"
  let ?s2' = "env 2 (env 1 (env 0 rows))"
  let ?A2 = "A\<lparr>acc_Balance := acc_Balance A - ?amt, acc_Version := acc_Version A + 1\<rparr>"
  have d0: "distinct (map acc_ID (env 0 rows))" using orderlyD[OF o d] by simp
  have e1: "evolves (env 0 rows) (env 1 (env 0 rows))"
    and d1: "distinct (map acc_ID (env 1 (env 0 rows)))"
    using orderlyD[OF o d0, of 1] by simp_all
  have e2: "evolves (env 1 (env 0 rows)) ?s2'" and d2': "distinct (map acc_ID ?s2')"
    using orderlyD[OF o d1, of 2] by simp_all
  have hitA: "PostgreSQL_GetByID ?s2' (acc_ID A) = Inr A"
    by (rule cas_hit[OF rd(2) evolves_trans[OF e1 e2] debit])
  have rowA: "PostgreSQL_GetByID s2 (acc_ID A) = Inr ?A2"
    using total_UpdateBalance[OF d2' hitA debit, of c] by simp
  have s2: "s2 = snd (PostgreSQL_UpdateBalance ?s2' (acc_ID A) (acc_Balance A - ?amt) (acc_Version A))"
    using debit by simp
  have ds2: "distinct (map acc_ID s2)"
    unfolding s2 by (rule evolves_distinct[OF evolves_UpdateBalance[OF d2']])
  have e3: "evolves s2 (env 3 s2)" and d3': "distinct (map acc_ID (env 3 s2))"
    using orderlyD[OF o ds2, of 3] by simp_all
  have s3: "s3 = env 3 s2" using UpdateBalance_error[OF credit] by simp
  have e4: "evolves (env 3 s2) (env 4 (env 3 s2))"
    and d4': "distinct (map acc_ID (env 4 (env 3 s2)))"
    using orderlyD[OF o d3', of 4] by simp_all
  have rb: "PostgreSQL_UpdateBalance (env 4 (env 3 s2)) (acc_ID A) (acc_Balance A)
              (acc_Version ?A2) = (None, s4)"
    using rollback s3 by simp
  have hitA2: "PostgreSQL_GetByID (env 4 (env 3 s2)) (acc_ID A) = Inr ?A2"
    by (rule cas_hit[OF rowA evolves_trans[OF e3 e4] rb])
  have "PostgreSQL_GetByID s4 (acc_ID A) =
          Inr (?A2\<lparr>acc_Balance := acc_Balance A, acc_Version := acc_Version ?A2 + 1\<rparr>)"
    using total_UpdateBalance[OF d4' hitA2 rb, of c] by simp
  moreover have "?A2\<lparr>acc_Balance := acc_Balance A, acc_Version := acc_Version ?A2 + 1\<rparr> =
                 A\<lparr>acc_Version := acc_Version A + 2\<rparr>"
    by simp
  moreover have "transfer_rows env rows request = s4"
    using rd(1) debit credit rollback by simp
  ultimately show ?thesis by simp
qed

text \<open>
  C3. The claim: when the debit of a transfer succeeds and the credit fails, the
  compensation reads the source again and credits the amount back, so that a transfer of
  150 from a source holding 1000 leaves the source at exactly 1000. The code does not
  read the source again: its rollback is one \<open>UpdateBalance\<close> with the balance read
  before the debit and that version plus one, and its result is dropped. Here A holds
  1000 at version 1; the debit leaves 850 at version 2; before the credit another client
  deactivates B and A, which moves both versions on; the credit fails, the rollback
  fails too, and A stays at 850 while the transaction is marked \<open>failed\<close>.
\<close>

theorem transfer_rollback_lost:
  "handler deactivations (Some transfer150) bank =
     (Some ErrConcurrentUpdate,
      bank\<lparr>accounts := [alice\<lparr>acc_Balance := 850, acc_Status := ''inactive'', acc_Version := 3\<rparr>,
                         bob\<lparr>acc_Status := ''inactive'', acc_Version := 4\<rparr>, carol],
           journal := pending_journal(''t1'' \<mapsto>
                        record_of transfer150 TransactionStatusFailed ''concurrent update detected'')\<rparr>)"
  by (simp add: eval_more deactivations_def)

section \<open>Balances are never negative\<close>

lemma nonneg_UpdateBalance:
  "nonneg rows \<Longrightarrow> 0 \<le> nb \<Longrightarrow> nonneg (snd (PostgreSQL_UpdateBalance rows i nb v))"
  by (auto simp: nonneg_def PostgreSQL_UpdateBalance_def Let_def list_all_iff)

lemma nonneg_GetByID:
  "nonneg rows \<Longrightarrow> PostgreSQL_GetByID rows i = Inr a \<Longrightarrow> 0 \<le> acc_Balance a"
  using GetByID_Inr[of rows i a] by (simp add: nonneg_def list_all_iff)

lemma benignD: "benign env \<Longrightarrow> nonneg rows \<Longrightarrow> nonneg (env k rows)"
  by (simp add: benign_def)

lemma deposit_rows_nonneg:
  assumes "benign env" "nonneg rows" "0 < req_Amount request"
  shows "nonneg (deposit_rows env rows request)"
proof -
  have s0: "nonneg (env 0 rows)" using assms by (simp add: benignD)
  have s1: "nonneg (env 1 (env 0 rows))" using assms s0 by (simp add: benignD)
  have "\<And>toID account. PostgreSQL_GetByID (env 0 rows) toID = Inr account \<Longrightarrow>
          nonneg (snd (PostgreSQL_UpdateBalance (env 1 (env 0 rows)) (acc_ID account)
                         (acc_Balance account + req_Amount request) (acc_Version account)))"
    using nonneg_GetByID[OF s0] assms(3) by (intro nonneg_UpdateBalance[OF s1]) fastforce
  then show ?thesis
    using s0 assms(2) by (simp add: deposit_rows_def split: option.splits sum.splits)
qed

lemma withdrawal_rows_nonneg:
  assumes "benign env" "nonneg rows"
  shows "nonneg (withdrawal_rows env rows request)"
proof -
  have s0: "nonneg (env 0 rows)" using assms by (simp add: benignD)
  have s1: "nonneg (env 1 (env 0 rows))" using assms s0 by (simp add: benignD)
  have "\<And>account. \<not> acc_Balance account < req_Amount request \<Longrightarrow>
          nonneg (snd (PostgreSQL_UpdateBalance (env 1 (env 0 rows)) (acc_ID account)
                         (acc_Balance account - req_Amount request) (acc_Version account)))"
    by (intro nonneg_UpdateBalance[OF s1]) simp
  then show ?thesis
    using s0 assms(2) by (auto simp: withdrawal_rows_def split: option.splits sum.splits)
qed

lemma transfer_rows_nonneg:
  assumes "benign env" "nonneg rows" "0 < req_Amount request"
  shows "nonneg (transfer_rows env rows request)"
proof -
  have s0: "nonneg (env 0 rows)" using assms by (simp add: benignD)
  have s1: "nonneg (env 1 (env 0 rows))" using assms s0 by (simp add: benignD)
  have upd: "\<And>s i nb v k. nonneg s \<Longrightarrow> 0 \<le> nb \<Longrightarrow>
      nonneg (snd (PostgreSQL_UpdateBalance (env k s) i nb v))"
    using assms(1) by (simp add: nonneg_UpdateBalance benignD)
  have step: "nonneg (case PostgreSQL_UpdateBalance (env 2 (env 1 (env 0 rows)))
                                   (acc_ID fromAccount)
                                   (acc_Balance fromAccount - req_Amount request)
                                   (acc_Version fromAccount) of
                              (Some err, s2) \<Rightarrow> s2
                            | (None, s2) \<Rightarrow>
                                (case PostgreSQL_UpdateBalance (env 3 s2) (acc_ID toAccount)
                                        (acc_Balance toAccount + req_Amount request)
                                        (acc_Version toAccount) of
                                   (Some err, s3) \<Rightarrow>
                                     snd (PostgreSQL_UpdateBalance (env 4 s3)
                                            (acc_ID fromAccount) (acc_Balance fromAccount)
                                            (acc_Version fromAccount + 1))
                                 | (None, s3) \<Rightarrow> s3))"
    if f: "PostgreSQL_GetByID (env 0 rows) fromID = Inr fromAccount"
      and t: "PostgreSQL_GetByID (env 1 (env 0 rows)) toID = Inr toAccount"
      and enough: "\<not> acc_Balance fromAccount < req_Amount request"
    for fromID toID fromAccount toAccount
  proof -
    have fb: "0 \<le> acc_Balance fromAccount" by (rule nonneg_GetByID[OF s0 f])
    have tb: "0 \<le> acc_Balance toAccount + req_Amount request"
      using nonneg_GetByID[OF s1 t] assms(3) by simp
    obtain r2 s2 where d: "PostgreSQL_UpdateBalance (env 2 (env 1 (env 0 rows)))
        (acc_ID fromAccount) (acc_Balance fromAccount - req_Amount request)
        (acc_Version fromAccount) = (r2, s2)"
      by (cases "PostgreSQL_UpdateBalance (env 2 (env 1 (env 0 rows)))
        (acc_ID fromAccount) (acc_Balance fromAccount - req_Amount request)
        (acc_Version fromAccount)")
    have n2: "nonneg s2"
      using upd[OF s1, of "acc_Balance fromAccount - req_Amount request" 2 "acc_ID fromAccount"
          "acc_Version fromAccount"] enough d by simp
    obtain r3 s3 where c: "PostgreSQL_UpdateBalance (env 3 s2) (acc_ID toAccount)
        (acc_Balance toAccount + req_Amount request) (acc_Version toAccount) = (r3, s3)"
      by (cases "PostgreSQL_UpdateBalance (env 3 s2) (acc_ID toAccount)
        (acc_Balance toAccount + req_Amount request) (acc_Version toAccount)")
    have n3: "nonneg s3"
      using upd[OF n2 tb, of 3 "acc_ID toAccount" "acc_Version toAccount"] c by simp
    have n4: "nonneg (snd (PostgreSQL_UpdateBalance (env 4 s3)
                (acc_ID fromAccount) (acc_Balance fromAccount) (acc_Version fromAccount + 1)))"
      by (rule upd[OF n3 fb])
    show ?thesis using d c n2 n3 n4 by (simp split: option.splits)
  qed
  show ?thesis
    using s0 s1 assms(2) step
    by (simp add: transfer_rows_def split: option.splits sum.splits)
qed

lemma handler_nonneg:
  assumes "benign env" "nonneg (accounts w)"
  shows "nonneg (accounts (snd (handler env data w)))"
  using assms deposit_rows_nonneg[OF assms(1,2)] withdrawal_rows_nonneg[OF assms(1,2)]
    transfer_rows_nonneg[OF assms(1,2)] IsValid_amount
  by (auto simp: handler_rows split: option.splits)

lemma CreateAccount_nonneg:
  assumes "nonneg (accounts w)"
  shows "nonneg (accounts (snd (CreateAccount uuid w userID initialBalance currency)))"
  using assms
  by (simp add: CreateAccount_def PostgreSQL_Create_def Let_def nonneg_def)

lemma step_nonneg:
  "benign_event ev \<Longrightarrow> nonneg (accounts w) \<Longrightarrow> nonneg (accounts (step w ev))"
  by (cases ev) (simp_all add: handler_nonneg CreateAccount_nonneg)

lemma nonneg_Update:
  "nonneg rows \<Longrightarrow> 0 \<le> acc_Balance a \<Longrightarrow> nonneg (snd (PostgreSQL_Update rows a))"
  by (auto simp: nonneg_def PostgreSQL_Update_def Let_def list_all_iff)

lemma nonneg_DeactivateAccount:
  assumes "nonneg rows"
  shows "nonneg (snd (DeactivateAccount rows i))"
proof (cases "PostgreSQL_GetByID rows i")
  case (Inl err)
  then show ?thesis using assms by (simp add: DeactivateAccount_def)
next
  case (Inr account)
  then show ?thesis
    using nonneg_Update[OF assms, of "account\<lparr>acc_Status := ''inactive''\<rparr>"]
      nonneg_GetByID[OF assms Inr]
    by (simp add: DeactivateAccount_def)
qed

lemma benign_no_interference: "benign no_interference"
  by (simp add: benign_def no_interference_def)

lemma benign_deactivations: "benign deactivations"
  by (simp add: benign_def deactivations_def nonneg_DeactivateAccount)

text \<open>
  C4. From a table whose balances are all non-negative, every run of account creations
  and processed messages (deposits, withdrawals and transfers, whether they complete, fail
  or are rolled back) leaves every balance greater than or equal to 0. The other clients
  that write between the repository calls of a processing are taken to keep balances
  non-negative themselves.
\<close>

theorem balances_never_negative:
  assumes "nonneg (accounts w)" and "list_all benign_event evs"
  shows "nonneg (accounts (run w evs))"
  using assms unfolding run_def
proof (induction evs arbitrary: w)
  case Nil
  then show ?case by simp
next
  case (Cons ev evs)
  then show ?case by (simp add: step_nonneg)
qed

theorem balances_never_negative_witness:
  "nonneg (accounts bank) \<and> list_all benign_event example_events \<and>
   nonneg (accounts (run bank example_events)) \<and>
   map acc_Balance (accounts (run bank example_events)) = [850, 600, 100, 50]"
proof -
  have a: "nonneg (accounts bank)"
    by (simp add: nonneg_def bank_def alice_def bob_def carol_def)
  have b: "list_all benign_event example_events"
    by (simp add: example_events_def benign_no_interference benign_deactivations)
  have c: "map acc_Balance (accounts (run bank example_events)) = [850, 600, 100, 50]"
    by (simp add: run_def example_events_def CreateAccount_def PostgreSQL_Create_def
        deactivations_def eval_more)
  show ?thesis using a b c balances_never_negative[OF a b] by simp
qed

section \<open>Transfers conserve the sum of a currency\<close>
















section \<open>Withdrawal without funds\<close>

text \<open>
  C6. For every withdrawal request against an active account of the request's currency
  whose balance is strictly less than the requested amount, processing fails with
  \<open>ErrInsufficientFunds\<close>, the journal record ends \<open>failed\<close> with that message, and
  the accounts table, hence the account's balance and version, is as before the attempt.
  The account is a well-formed one: its balance is not negative and it has a currency.
\<close>

theorem withdrawal_insufficient_funds:
  assumes "req_Type request = TransactionTypeWithdrawal"
      and "req_FromAccountID request = Some i"
      and "PostgreSQL_GetByID (accounts w) i = Inr a"
      and "acc_Status a = ''active''"
      and "acc_Currency a = req_Currency request"
      and "acc_Currency a \<noteq> []"
      and "0 \<le> acc_Balance a"
      and "acc_Balance a < req_Amount request"
      and "journal w (req_ID request) = Some t"
  shows "case handler no_interference (Some request) w of
           (r, w') \<Rightarrow>
             r = Some ErrInsufficientFunds \<and>
             journal w' (req_ID request) =
               Some (t\<lparr>tx_Status := TransactionStatusFailed,
                       tx_ErrorMessage := ''insufficient funds''\<rparr>) \<and>
             accounts w' = accounts w \<and>
             PostgreSQL_GetByID (accounts w') i = Inr a"
proof -
  have valid: "IsValid request = None"
    using assms by (simp add: IsValid_def TransactionTypeDeposit_def TransactionTypeWithdrawal_def)
  have "processWithdrawal no_interference w request = (Some ErrInsufficientFunds, w)"
    using assms by (simp add: processWithdrawal_def no_interference_def)
  then have "ProcessTransactionSync no_interference w request = (Some ErrInsufficientFunds, w)"
    using valid assms(1)
    by (simp add: ProcessTransactionSync_def TransactionTypeDeposit_def TransactionTypeWithdrawal_def)
  then show ?thesis
    using assms(3,9) by (simp add: handler_def Mongo_UpdateStatus_def)
qed

theorem withdrawal_insufficient_funds_witness:
  "fst (handler no_interference (Some withdraw200) bank) = Some ErrInsufficientFunds \<and>
   journal (snd (handler no_interference (Some withdraw200) bank)) ''t2'' =
     Some (record_of withdraw200 TransactionStatusFailed ''insufficient funds'') \<and>
   PostgreSQL_GetByID (accounts (snd (handler no_interference (Some withdraw200) bank))) ''C'' =
     Inr carol"
proof -
  have g: "PostgreSQL_GetByID (accounts bank) ''C'' = Inr carol"
    by (simp add: bank_def PostgreSQL_GetByID_def alice_def bob_def carol_def)
  have j: "journal bank (req_ID withdraw200) = Some (record_of withdraw200 TransactionStatusPending [])"
    by (simp add: bank_def pending_journal_def withdraw200_def)
  have "case handler no_interference (Some withdraw200) bank of
           (r, w') \<Rightarrow>
             r = Some ErrInsufficientFunds \<and>
             journal w' (req_ID withdraw200) =
               Some ((record_of withdraw200 TransactionStatusPending [])\<lparr>tx_Status := TransactionStatusFailed,
                       tx_ErrorMessage := ''insufficient funds''\<rparr>) \<and>
             accounts w' = accounts bank \<and>
             PostgreSQL_GetByID (accounts w') ''C'' = Inr carol"
    by (rule withdrawal_insufficient_funds[where a=carol and i="''C''", OF _ _ g _ _ _ _ _ j])
       (simp_all add: withdraw200_def carol_def TransactionTypeWithdrawal_def)
  then show ?thesis
    using g by (simp add: record_of_def withdraw200_def split: prod.splits)
qed

section \<open>Terminal statuses\<close>

text \<open>
  C7, as claimed, fails. The deposit request is cancelled while pending, so its record
  is \<open>cancelled\<close>; its message is still in the queue, and when the processor handles
  it the deposit is applied and the record becomes \<open>completed\<close>.
\<close>

theorem terminal_status_counterexample:
  "map_option tx_Status (journal bank_after_cancel ''t3'') = Some TransactionStatusCancelled \<and>
   map_option tx_Status
     (journal (snd (handler no_interference (Some deposit100) bank_after_cancel)) ''t3'') =
     Some TransactionStatusCompleted"
proof -
  have "journal bank_after_cancel ''t3'' =
          Some (record_of deposit100 TransactionStatusCancelled ''Cancelled by user'')"
    by (simp add: bank_after_cancel_def cancel_t3)
  then show ?thesis
    by (simp add: deposit_after_cancel record_of_def)
qed

text \<open>
  C7, amended. For every transaction record whose status is completed, failed or
  cancelled, cancellation changes nothing: \<open>CancelTransaction\<close> fails with
  \<open>ErrTransactionAlreadyProcessed\<close> and leaves the journal as it is. The status update
  of the journal has no such guard: \<open>UpdateStatus\<close>, which the processor calls, writes
  the status and message it is given over any current status.
\<close>

theorem terminal_status_cancel:
  assumes "journal w i = Some t" and "tx_Status t \<noteq> TransactionStatusPending"
  shows "CancelTransaction w i = (Some ErrTransactionAlreadyProcessed, w) \<and>
         Mongo_UpdateStatus (journal w) i status msg =
           (None, (journal w)(i \<mapsto> t\<lparr>tx_Status := status, tx_ErrorMessage := msg\<rparr>)) \<and>
         MockTx_UpdateStatus (journal w) i status msg =
           (None, (journal w)(i \<mapsto> t\<lparr>tx_Status := status, tx_ErrorMessage := msg\<rparr>))"
  using assms
  by (simp add: CancelTransaction_def Mongo_GetByID_def Mongo_UpdateStatus_def
      MockTx_UpdateStatus_def)

theorem terminal_status_cancel_witness:
  "CancelTransaction bank_after_deposit ''t3'' =
     (Some ErrTransactionAlreadyProcessed, bank_after_deposit) \<and>
   map_option tx_Status
     (snd (Mongo_UpdateStatus (journal bank_after_deposit) ''t3'' TransactionStatusFailed
             ''late'') ''t3'') = Some TransactionStatusFailed"
proof -
  have j: "journal bank_after_deposit ''t3'' =
             Some (record_of deposit100 TransactionStatusCompleted [])"
    by (simp add: bank_after_deposit_eq)
  have s: "tx_Status (record_of deposit100 TransactionStatusCompleted []) \<noteq>
             TransactionStatusPending"
    by (simp add: record_of_def)
  from terminal_status_cancel[OF j s, of TransactionStatusFailed "''late''"]
  show ?thesis by simp
qed

section \<open>Validation precedence\<close>

text \<open>
  C8. For every transaction request, \<open>IsValid\<close> returns the error of the first rule that
  matches in the order amount \<open>\<le> 0\<close> (InvalidAmount), empty currency (MissingCurrency),
  deposit without destination (MissingToAccount), withdrawal without source
  (MissingFromAccount), transfer missing either account (MissingAccounts), transfer with
  equal accounts (SameAccount), any other type (InvalidTransactionType); a request that
  matches no rule is valid.
\<close>

theorem IsValid_precedence: "IsValid tr = first_error (validation_rules tr)"
  by (simp add: IsValid_def validation_rules_def TransactionTypeDeposit_def
      TransactionTypeWithdrawal_def TransactionTypeTransfer_def
      split: option.splits)

section \<open>Retries of permanent failures\<close>

lemma processDeposit_permanent:
  assumes "processDeposit no_interference w request = (Some e, w1)" "permanent e"
  shows "w1 = w"
  using assms
  by (auto simp: processDeposit_def no_interference_def permanent_def Let_def
      dest!: UpdateBalance_error UpdateStatus_error GetByID_Inl
      split: option.splits sum.splits if_splits prod.splits)

lemma processWithdrawal_permanent:
  assumes "processWithdrawal no_interference w request = (Some e, w1)" "permanent e"
  shows "w1 = w"
  using assms
  by (auto simp: processWithdrawal_def no_interference_def permanent_def Let_def
      dest!: UpdateBalance_error UpdateStatus_error GetByID_Inl
      split: option.splits sum.splits if_splits prod.splits)

lemma processTransfer_permanent:
  assumes "processTransfer no_interference w request = (Some e, w1)" "permanent e"
  shows "w1 = w"
  using assms
  by (auto simp: processTransfer_def no_interference_def permanent_def Let_def
      dest!: UpdateBalance_error UpdateStatus_error GetByID_Inl
      split: option.splits sum.splits if_splits prod.splits)

lemma ProcessTransactionSync_permanent:
  assumes "ProcessTransactionSync no_interference w request = (Some e, w1)" "permanent e"
  shows "w1 = w"
proof (cases "IsValid request")
  case (Some err)
  then show ?thesis using assms(1) by (simp add: ProcessTransactionSync_def)
next
  case None
  then show ?thesis
    using assms processDeposit_permanent[of w request e w1]
      processWithdrawal_permanent[of w request e w1] processTransfer_permanent[of w request e w1]
    by (auto simp: ProcessTransactionSync_def split: if_splits)
qed

lemma handler_permanent:
  assumes "handler no_interference (Some request) w = (Some e, w')" "permanent e"
  shows "w' = w\<lparr>journal := snd (Mongo_UpdateStatus (journal w) (req_ID request)
                                  TransactionStatusFailed (Error e))\<rparr>"
proof -
  obtain r w1 where p: "ProcessTransactionSync no_interference w request = (r, w1)"
    by (cases "ProcessTransactionSync no_interference w request")
  with assms(1) have r: "r = Some e"
    by (auto simp: handler_def split: option.splits)
  then have "w1 = w" using ProcessTransactionSync_permanent[of w request e w1] p assms(2) by simp
  then show ?thesis using assms(1) p r by (simp add: handler_def)
qed

lemma handler_permanent_again:
  assumes "handler no_interference (Some request) w = (Some e, w')" "permanent e"
  shows "handler no_interference (Some request) w' = (Some e, w')"
proof -
  let ?j = "snd (Mongo_UpdateStatus (journal w) (req_ID request) TransactionStatusFailed (Error e))"
  have w': "w' = w\<lparr>journal := ?j\<rparr>" by (rule handler_permanent[OF assms])
  have "fst (ProcessTransactionSync no_interference (w\<lparr>journal := ?j\<rparr>) request) =
        fst (ProcessTransactionSync no_interference (w\<lparr>journal := journal w\<rparr>) request)"
    by (rule ProcessTransactionSync_result) (simp add: UpdateStatus_presence)
  also have "\<dots> = Some e"
    using assms(1) handler_result[of no_interference request w] by simp
  finally have f: "fst (ProcessTransactionSync no_interference w' request) = Some e"
    by (simp add: w')
  obtain w2 where p: "ProcessTransactionSync no_interference w' request = (Some e, w2)"
    using f by (cases "ProcessTransactionSync no_interference w' request") simp
  have "w2 = w'" by (rule ProcessTransactionSync_permanent[OF p assms(2)])
  then show ?thesis
    using p by (simp add: handler_def w' UpdateStatus_twice)
qed

lemma permanent_three_attempts:
  assumes "handler no_interference (Some request) w = (Some e, w')" and "permanent e"
  shows "processMessageWithRetry (counting (handler no_interference (Some request))) (0, w) =
           (Some (Wrapped ''failed after 3 attempts'' e), (3, w'), [(1, e), (2, e), (3, e)])"
    and "processMessageWithRetry (handler no_interference (Some request)) w =
           (Some (Wrapped ''failed after 3 attempts'' e), w', [(1, e), (2, e), (3, e)])"
proof -
  let ?h = "handler no_interference (Some request)"
  have again: "?h w' = (Some e, w')" by (rule handler_permanent_again[OF assms])
  have c1: "counting ?h (0, w) = (Some e, (1, w'))"
    by (simp add: counting_def assms(1))
  have c2: "counting ?h (1, w') = (Some e, (2, w'))"
    by (simp add: counting_def again)
  have c3: "counting ?h (2, w') = (Some e, (3, w'))"
    by (simp add: counting_def again)
  show "processMessageWithRetry (counting ?h) (0, w) =
           (Some (Wrapped ''failed after 3 attempts'' e), (3, w'), [(1, e), (2, e), (3, e)])"
    by (rule retry_all_fail[where h="counting ?h"], rule c1, rule c2, rule c3)
  show "processMessageWithRetry ?h w =
           (Some (Wrapped ''failed after 3 attempts'' e), w', [(1, e), (2, e), (3, e)])"
    by (rule retry_all_fail[where h="?h"], rule assms(1), rule again, rule again)
qed

text \<open>
  C9, as claimed, fails. Withdrawing 200 from account C, which holds 100, fails with
  \<open>ErrInsufficientFunds\<close>; the retry loop nevertheless invokes the handler three times
  for this one message.
\<close>

theorem permanent_errors_counterexample:
  "fst (handler no_interference (Some withdraw200) bank) = Some ErrInsufficientFunds \<and>
   fst (fst (snd (processMessageWithRetry (counting (handler no_interference (Some withdraw200)))
                    (0, bank)))) = 3"
proof -
  have "permanent ErrInsufficientFunds" by (simp add: permanent_def)
  from permanent_three_attempts(1)[OF withdraw_fails this] show ?thesis
    by (simp add: withdraw_fails)
qed

text \<open>
  C9, amended. The retry loop does not look at the kind of error. For every message
  whose processing fails with \<open>ErrInsufficientFunds\<close>, \<open>ErrAccountInactive\<close> or
  \<open>ErrCurrencyMismatch\<close>, and with no other writer at work, the handler is invoked
  exactly \<open>maxRetries = 3\<close> times; every attempt fails with the same error, leaves the
  accounts table as it was and marks the transaction \<open>failed\<close> with the error's message;
  the delivery is then rejected.
\<close>

theorem permanent_errors_are_retried:
  assumes "handler no_interference (Some request) w = (Some e, w')"
      and "e = ErrInsufficientFunds \<or> e = ErrAccountInactive \<or> e = ErrCurrencyMismatch"
  shows "processMessageWithRetry (counting (handler no_interference (Some request))) (0, w) =
           (Some (Wrapped ''failed after 3 attempts'' e), (3, w'), [(1, e), (2, e), (3, e)]) \<and>
         fst (deliver (handler no_interference (Some request)) w) = Nack \<and>
         accounts w' = accounts w \<and>
         (\<forall>t. journal w (req_ID request) = Some t \<longrightarrow>
              journal w' (req_ID request) =
                Some (t\<lparr>tx_Status := TransactionStatusFailed, tx_ErrorMessage := Error e\<rparr>))"
proof -
  let ?h = "handler no_interference (Some request)"
  have pe: "permanent e" using assms(2) by (simp add: permanent_def)
  have w': "w' = w\<lparr>journal := snd (Mongo_UpdateStatus (journal w) (req_ID request)
                                  TransactionStatusFailed (Error e))\<rparr>"
    by (rule handler_permanent[OF assms(1) pe])
  note three = permanent_three_attempts[OF assms(1) pe]
  have "fst (deliver ?h w) = Nack" by (simp add: deliver_def three(2))
  moreover have "accounts w' = accounts w" by (subst w') simp
  moreover have "\<forall>t. journal w (req_ID request) = Some t \<longrightarrow>
              journal w' (req_ID request) =
                Some (t\<lparr>tx_Status := TransactionStatusFailed, tx_ErrorMessage := Error e\<rparr>)"
    by (subst w') (simp add: Mongo_UpdateStatus_def)
  ultimately show ?thesis using three(1) by blast
qed

theorem permanent_errors_are_retried_witness:
  "processMessageWithRetry (counting (handler no_interference (Some withdraw200))) (0, bank) =
     (Some (Wrapped ''failed after 3 attempts'' ErrInsufficientFunds),
      (3, bank\<lparr>journal := pending_journal(''t2'' \<mapsto>
               record_of withdraw200 TransactionStatusFailed ''insufficient funds'')\<rparr>),
      [(1, ErrInsufficientFunds), (2, ErrInsufficientFunds), (3, ErrInsufficientFunds)]) \<and>
   fst (deliver (handler no_interference (Some withdraw200)) bank) = Nack"
proof -
  have e: "ErrInsufficientFunds = ErrInsufficientFunds \<or> ErrInsufficientFunds = ErrAccountInactive \<or>
        ErrInsufficientFunds = ErrCurrencyMismatch" by simp
  from permanent_errors_are_retried[OF withdraw_fails e]
  show ?thesis by simp
qed

section \<open>Acceptance when the broker refuses the message\<close>

text \<open>
  C10. For every valid request accepted by \<open>ProcessTransaction\<close>: if the journal write
  succeeds (the id, drawn fresh when the request has none, is not in the journal yet) and
  publishing to the queue fails, then the record just created is \<open>failed\<close> with the
  publish error as its message, the call returns an error, and nothing was enqueued.
\<close>

theorem ProcessTransaction_publish_failure:
  assumes "IsValid request0 = None"
      and "request = (if req_ID request0 = [] then request0\<lparr>req_ID := uuid_request out\<rparr>
                      else request0)"
      and "req_ID request \<noteq> []"
      and "journal w (req_ID request) = None"
      and "Marshal_error out = None"
      and "fst (RabbitMQ_Publish (broker_answers out) (queue w) (Some request)) = Some err"
  shows "case ProcessTransaction out w request0 of
           (r, w') \<Rightarrow>
             r = Inl (Wrapped ''failed to publish transaction'' err) \<and>
             journal w' (req_ID request) =
               Some (record_of request TransactionStatusFailed (Error err)) \<and>
             queue w' = queue w"
proof -
  let ?t = "record_of request TransactionStatusPending []"
  have c: "Mongo_Create (uuid_journal out) (journal w) ?t =
             (Inr ?t, (journal w)(req_ID request \<mapsto> ?t))"
    using assms(3,4) by (simp add: Mongo_Create_def record_of_def Let_def)
  obtain q where p: "RabbitMQ_Publish (broker_answers out) (queue w) (Some request) = (Some err, q)"
    using assms(6) by (cases "RabbitMQ_Publish (broker_answers out) (queue w) (Some request)") simp
  have q: "q = queue w"
    using p by (auto simp: RabbitMQ_Publish_def split: option.splits)
  have u: "Mongo_UpdateStatus ((journal w)(req_ID request \<mapsto> ?t)) (req_ID request)
             TransactionStatusFailed (Error err) =
           (None, (journal w)(req_ID request \<mapsto> record_of request TransactionStatusFailed (Error err)))"
    by (simp add: Mongo_UpdateStatus_def record_of_def)
  have i: "tx_ID ?t = req_ID request" by (simp add: record_of_def)
  show ?thesis
    using assms(1,5) c p q u i
    by (simp add: ProcessTransaction_def Let_def record_of_def flip: assms(2))
qed

theorem ProcessTransaction_publish_failure_witness:
  "fst (ProcessTransaction broker_down bank (transfer150\<lparr>req_ID := []\<rparr>)) =
     Inl (Wrapped ''failed to publish transaction''
            (Wrapped ''failed to publish message'' (External ''channel closed''))) \<and>
   journal (snd (ProcessTransaction broker_down bank (transfer150\<lparr>req_ID := []\<rparr>))) ''u1'' =
     Some (record_of (transfer150\<lparr>req_ID := ''u1''\<rparr>) TransactionStatusFailed
             ''failed to publish message: channel closed'')"
proof -
  have v: "IsValid (transfer150\<lparr>req_ID := []\<rparr>) = None"
    by (simp add: IsValid_def transfer150_def TransactionTypeDeposit_def
        TransactionTypeWithdrawal_def TransactionTypeTransfer_def)
  have r: "transfer150\<lparr>req_ID := ''u1''\<rparr> =
      (if req_ID (transfer150\<lparr>req_ID := []\<rparr>) = []
       then (transfer150\<lparr>req_ID := []\<rparr>)\<lparr>req_ID := uuid_request broker_down\<rparr>
       else transfer150\<lparr>req_ID := []\<rparr>)"
    by (simp add: broker_down_def)
  have n: "req_ID (transfer150\<lparr>req_ID := ''u1''\<rparr>) \<noteq> []" by simp
  have j: "journal bank (req_ID (transfer150\<lparr>req_ID := ''u1''\<rparr>)) = None"
    by (simp add: bank_def pending_journal_def)
  have m: "Marshal_error broker_down = None" by (simp add: broker_down_def)
  have p: "fst (RabbitMQ_Publish (broker_answers broker_down) (queue bank)
                  (Some (transfer150\<lparr>req_ID := ''u1''\<rparr>))) =
           Some (Wrapped ''failed to publish message'' (External ''channel closed''))"
    by (simp add: RabbitMQ_Publish_def broker_down_def)
  show ?thesis
    using ProcessTransaction_publish_failure[OF v r n j m p]
    by (simp split: prod.splits)
qed

end
